theory Spec2Isabelle
  imports Main "HOL-Library.AList" "HOL-Library.Sublist"
begin

section \<open>The kubeless function controller (pkg/controller/controller.go)\<close>

text \<open>
  The controller drains a rate-limited work queue of keys \<open>namespace/name\<close>. For each key
  it looks the Function up in the informer's cache and either removes the function's
  Kubernetes objects (\<open>deleteK8sResources\<close>) or creates/updates them
  (\<open>ensureK8sResources\<close>). At start-up \<open>garbageCollect\<close> re-queues the owners of the
  services, deployments and config maps that carry a Function owner reference.

  Every request to the cluster is recorded with its outcome, in order, in a trace (the
  \<open>world\<close>); the cluster's answer to a request is a function of what happened before it,
  so the theorems below hold for every behaviour of the cluster. Calls of the logger are not
  modelled: they change neither the control flow nor a returned value.
\<close>

subsection \<open>Constants (controller.go, lines 44-48)\<close>

definition maxRetries :: nat where
  "maxRetries = 5"

definition funcKind :: string where
  "funcKind = ''Function''"

definition funcAPI :: string where
  "funcAPI = ''kubeless.io''"

subsection \<open>Errors and results\<close>

text \<open>
  Go's \<open>error\<close> values. \<open>NotFound\<close> is a status error whose reason is "not found" (the one
  \<open>k8sErrors.IsNotFound\<close> recognises); \<open>APIError\<close> is any other error of a collaborator;
  the last three are the errors this file and the key splitter construct themselves.
\<close>

datatype error =
    NotFound string
  | APIError string
  | KeyFormatError string
  | StoreFetchError string error
  | ResourceNotInAnyGroup string

fun IsNotFound :: "error \<Rightarrow> bool" where
  "IsNotFound (NotFound _) = True"
| "IsNotFound _ = False"

text \<open>The idiom \<open>err != nil && !k8sErrors.IsNotFound(err)\<close>.\<close>

definition notNilNorNotFound :: "error option \<Rightarrow> bool" where
  "notNilNorNotFound err = (case err of None \<Rightarrow> False | Some e \<Rightarrow> \<not> IsNotFound e)"

text \<open>
  A call either returns, or panics (an index out of range, a nil dereference, a write to a
  nil map), or blocks (the queue's \<open>Get\<close> on an empty queue that is not shutting down).
\<close>

datatype 'a result = Returns 'a | Panics | Blocks

subsection \<open>The data the controller reads\<close>

record OwnerReference =
  or_APIVersion :: string
  or_Kind :: string
  or_Name :: string

text \<open>\<open>v2beta1.MetricSourceType\<close> is a string type; the controller compares it with "Object".\<close>

definition ObjectMetricSourceType :: string where
  "ObjectMetricSourceType = ''Object''"

record MetricSpec =
  metric_Type :: string

record HorizontalPodAutoscaler =
  hpa_Name :: string
  hpa_OwnerReferences :: "OwnerReference list"
  hpa_ScaleTargetRef_Name :: string
  hpa_Metrics :: "MetricSpec list"

text \<open>
  The fields of \<open>kubelessApi.Function\<close> that the controller touches. A Go map is an
  association list with distinct keys, and \<open>None\<close> is the nil map. The deployment override
  is an opaque payload: the controller only hands it to the merge helper.
\<close>

type_synonym labels = "(string \<times> string) list option"

type_synonym Deployment = string

record Function =
  fn_Namespace :: string
  fn_Name :: string
  fn_Labels :: labels
  fn_Type :: string
  fn_Deployment :: Deployment
  fn_HorizontalPodAutoscaler :: HorizontalPodAutoscaler

text \<open>Go's \<open>len\<close> of a map: 0 for the nil map.\<close>

fun len_labels :: "labels \<Rightarrow> nat" where
  "len_labels None = 0"
| "len_labels (Some m) = length (remdups (map fst m))"

text \<open>Reading a label, as \<open>m[k]\<close> with the comma-ok form does.\<close>

fun label :: "labels \<Rightarrow> string \<Rightarrow> string option" where
  "label None k = None"
| "label (Some m) k = map_of m k"

text \<open>The metadata of a listed service, deployment or config map.\<close>

record ObjectMeta =
  om_Namespace :: string
  om_OwnerReferences :: "OwnerReference list"

record APIResource =
  ar_Name :: string

record APIResourceList =
  arl_GroupVersion :: string
  arl_APIResources :: "APIResource list"

subsection \<open>Requests to the cluster\<close>

text \<open>
  One constructor for each client call the controller makes, directly or through the
  helpers of \<open>utils\<close>, with the arguments the controller passes.
\<close>

datatype call =
    CronJobsGet string string
  | CronJobsDelete string string
  | DeploymentsDelete string string
  | ServicesDelete string string
  | ConfigMapsDelete string string
  | DeleteServiceMonitor string string
  | DeleteAutoscale string string
  | EnsureFuncConfigMap Function "OwnerReference list"
  | EnsureFuncService Function "OwnerReference list"
  | EnsureFuncDeployment Function "OwnerReference list"
  | ServerResources
  | EnsureFuncCronJob Function "OwnerReference list" string
  | CreateServiceMonitor Function string "OwnerReference list"
  | CreateAutoscale HorizontalPodAutoscaler
  | ServicesList
  | DeploymentsList
  | ConfigMapsList

text \<open>An event is a request with the error it returned (\<open>None\<close> for nil).\<close>

type_synonym event = "call \<times> error option"

type_synonym world = "event list"

text \<open>
  The controller's collaborators. \<open>clientset\<close>, \<open>discovery\<close> and \<open>lister\<close> answer a
  request given the requests made so far; \<open>smclient\<close> says whether the service-monitor
  client is non-nil; \<open>indexer\<close> is the informer's \<open>GetByKey\<close>; \<open>config_Data\<close> is the data
  of the controller's config map; the last three are \<open>yaml.Unmarshal\<close> into a deployment,
  \<open>utils.MergeDeployments\<close> (which writes the merged value into its first argument) and
  \<open>utils.GetOwnerReference\<close>.
\<close>

record Controller =
  clientset :: "world \<Rightarrow> call \<Rightarrow> error option"
  discovery :: "world \<Rightarrow> error + APIResourceList list"
  lister :: "world \<Rightarrow> call \<Rightarrow> error + ObjectMeta list"
  smclient :: bool
  indexer :: "string \<Rightarrow> error + Function option"
  config_Data :: "(string \<times> string) list"
  yamlUnmarshal :: "string \<Rightarrow> error + Deployment"
  MergeDeployments :: "Deployment \<Rightarrow> Deployment \<Rightarrow> error + Deployment"
  GetOwnerReference :: "Function \<Rightarrow> error + OwnerReference list"

definition request :: "Controller \<Rightarrow> call \<Rightarrow> world \<Rightarrow> error option \<times> world" where
  "request c rq w = (let err = clientset c w rq in (err, w @ [(rq, err)]))"

subsection \<open>The work queue\<close>

text \<open>
  Modelled from the spec: the rate-limited work queue is the imported
  \<open>workqueue.RateLimitingInterface\<close>, whose code is not among the sources; the model follows
  the contract of the Event Queue (section 4.1): \<open>Add\<close> deduplicates pending keys and defers
  a key that is being processed, \<open>Get\<close> hands out the oldest pending key, \<open>Done\<close> ends the
  attempt and re-queues a key added meanwhile, \<open>Forget\<close> clears the key's failure count,
  \<open>AddRateLimited\<close> counts one more failure and re-adds the key after a backoff delay
  (it waits in \<open>waitingForAdd\<close> until its timer fires), \<open>NumRequeues\<close> is the failure count.
\<close>

record workqueue =
  queue :: "string list"
  dirty :: "string set"
  processing :: "string set"
  shuttingDown :: bool
  failures :: "string \<Rightarrow> nat"
  waitingForAdd :: "string list"

definition NewRateLimitingQueue :: workqueue where
  "NewRateLimitingQueue =
     \<lparr>queue = [], dirty = {}, processing = {}, shuttingDown = False,
      failures = (\<lambda>_. 0), waitingForAdd = []\<rparr>"

definition Add :: "string \<Rightarrow> workqueue \<Rightarrow> workqueue" where
  "Add item q =
     (if shuttingDown q then q
      else if item \<in> dirty q then q
      else if item \<in> processing q then q\<lparr>dirty := insert item (dirty q)\<rparr>
      else q\<lparr>dirty := insert item (dirty q), queue := queue q @ [item]\<rparr>)"

definition Get :: "workqueue \<Rightarrow> (string \<times> bool) result \<times> workqueue" where
  "Get q =
     (case queue q of
        [] \<Rightarrow> (if shuttingDown q then (Returns ([], True), q) else (Blocks, q))
      | item # rest \<Rightarrow>
          (Returns (item, False),
           q\<lparr>queue := rest, processing := insert item (processing q),
             dirty := dirty q - {item}\<rparr>))"

definition Done :: "string \<Rightarrow> workqueue \<Rightarrow> workqueue" where
  "Done item q =
     (let q1 = q\<lparr>processing := processing q - {item}\<rparr>
      in if item \<in> dirty q1 then q1\<lparr>queue := queue q1 @ [item]\<rparr> else q1)"

definition Forget :: "string \<Rightarrow> workqueue \<Rightarrow> workqueue" where
  "Forget item q = q\<lparr>failures := (failures q)(item := 0)\<rparr>"

definition NumRequeues :: "workqueue \<Rightarrow> string \<Rightarrow> nat" where
  "NumRequeues q item = failures q item"

definition AddRateLimited :: "string \<Rightarrow> workqueue \<Rightarrow> workqueue" where
  "AddRateLimited item q =
     (let q1 = q\<lparr>failures := (failures q)(item := failures q item + 1)\<rparr>
      in if shuttingDown q1 then q1
         else q1\<lparr>waitingForAdd := waitingForAdd q1 @ [item]\<rparr>)"

text \<open>The backoff timers of the waiting keys fire: each key is added to the queue.\<close>

definition timersFire :: "workqueue \<Rightarrow> workqueue" where
  "timersFire q = foldl (\<lambda>q' item. Add item q') (q\<lparr>waitingForAdd := []\<rparr>) (waitingForAdd q)"

subsection \<open>Keys\<close>

text \<open>Go's \<open>strings.Split(s, sep)\<close> for a one-character separator.\<close>

fun splitOn :: "char \<Rightarrow> string \<Rightarrow> string list" where
  "splitOn sep [] = [[]]"
| "splitOn sep (ch # s) =
     (if ch = sep then [] # splitOn sep s
      else (case splitOn sep s of
              [] \<Rightarrow> [[ch]]
            | p # ps \<Rightarrow> (ch # p) # ps))"

text \<open>
  \<open>cache.SplitMetaNamespaceKey\<close> of the imported client library: a key with no slash is a
  name in the empty namespace, a key with one slash is namespace and name, any other key
  is an "unexpected key format" error.
\<close>

definition SplitMetaNamespaceKey :: "string \<Rightarrow> error + (string \<times> string)" where
  "SplitMetaNamespaceKey key =
     (case splitOn (CHR ''/'') key of
        [name] \<Rightarrow> Inr ([], name)
      | [ns, name] \<Rightarrow> Inr (ns, name)
      | _ \<Rightarrow> Inl (KeyFormatError key))"

subsection \<open>getResouceGroupVersion (lines 182-200)\<close>

text \<open>
  The inner loop over \<open>resource.APIResources\<close>: at the first resource named \<open>target\<close> it
  assigns the list's group version and breaks. The outer loop runs over every list.
\<close>

fun scanAPIResources :: "APIResource list \<Rightarrow> string \<Rightarrow> string \<Rightarrow> string \<Rightarrow> string" where
  "scanAPIResources [] target gv groupVersion = groupVersion"
| "scanAPIResources (apiResource # rest) target gv groupVersion =
     (if ar_Name apiResource = target then gv
      else scanAPIResources rest target gv groupVersion)"

fun scanResources :: "APIResourceList list \<Rightarrow> string \<Rightarrow> string \<Rightarrow> string" where
  "scanResources [] target groupVersion = groupVersion"
| "scanResources (resource # rest) target groupVersion =
     scanResources rest target
       (scanAPIResources (arl_APIResources resource) target (arl_GroupVersion resource)
          groupVersion)"

definition getResouceGroupVersion ::
  "Controller \<Rightarrow> string \<Rightarrow> world \<Rightarrow> (error + string) \<times> world" where
  "getResouceGroupVersion c target w =
     (case discovery c w of
        Inl err \<Rightarrow> (Inl err, w @ [(ServerResources, Some err)])
      | Inr resources \<Rightarrow>
          (let groupVersion = scanResources resources target [];
               w1 = w @ [(ServerResources, None)]
           in if groupVersion = [] then (Inl (ResourceNotInAnyGroup target), w1)
              else (Inr groupVersion, w1)))"

subsection \<open>deleteAutoscale (lines 278-292) and deleteK8sResources (lines 295-330)\<close>

definition deleteAutoscale ::
  "Controller \<Rightarrow> string \<Rightarrow> string \<Rightarrow> world \<Rightarrow> error option \<times> world" where
  "deleteAutoscale c ns name w =
     (let (err1, w1) =
            (if smclient c then request c (DeleteServiceMonitor name ns) w else (None, w))
      in if notNilNorNotFound err1 then (err1, w1)
         else (let (err, w2) = request c (DeleteAutoscale name ns) w1
               in if notNilNorNotFound err then (err, w2) else (None, w2)))"

definition deleteK8sResources ::
  "Controller \<Rightarrow> string \<Rightarrow> string \<Rightarrow> world \<Rightarrow> error option \<times> world" where
  "deleteK8sResources c ns name w =
     (let (err0, w0) = request c (CronJobsGet ns (''trigger-'' @ name)) w;
          (err1, w1) =
            (if err0 = None then request c (CronJobsDelete ns (''trigger-'' @ name)) w0
             else (None, w0))
      in if notNilNorNotFound err1 then (err1, w1)
         else (let (err2, w2) = request c (DeploymentsDelete ns name) w1
               in if notNilNorNotFound err2 then (err2, w2)
                  else (let (err3, w3) = request c (ServicesDelete ns name) w2
                        in if notNilNorNotFound err3 then (err3, w3)
                           else (let (err4, w4) = request c (ConfigMapsDelete ns name) w3
                                 in if notNilNorNotFound err4 then (err4, w4)
                                    else (let (err5, w5) = deleteAutoscale c ns name w4
                                          in if notNilNorNotFound err5 then (err5, w5)
                                             else (None, w5))))))"

subsection \<open>ensureK8sResources (lines 203-276)\<close>

text \<open>
  Lines 204-207: an empty or nil label map is replaced by a fresh map, then the entry
  \<open>function\<close> is written. A write to a nil map would panic.
\<close>

definition normalizeLabels :: "Function \<Rightarrow> Function result" where
  "normalizeLabels funcObj =
     (let funcObj1 =
            (if len_labels (fn_Labels funcObj) = 0 then funcObj\<lparr>fn_Labels := Some []\<rparr>
             else funcObj)
      in case fn_Labels funcObj1 of
           None \<Rightarrow> Panics
         | Some m \<Rightarrow>
             Returns (funcObj1\<lparr>fn_Labels := Some (AList.update ''function'' (fn_Name funcObj1) m)\<rparr>))"

text \<open>
  Lines 209-221: when the controller's config map has a \<open>deployment\<close> entry it is parsed and
  merged into the function's deployment.
\<close>

definition mergeConfiguredDeployment :: "Controller \<Rightarrow> Function \<Rightarrow> error + Function" where
  "mergeConfiguredDeployment c funcObj =
     (case map_of (config_Data c) ''deployment'' of
        None \<Rightarrow> Inr funcObj
      | Some deploymentConfigData \<Rightarrow>
          (case yamlUnmarshal c deploymentConfigData of
             Inl err \<Rightarrow> Inl err
           | Inr deployment \<Rightarrow>
               (case MergeDeployments c (fn_Deployment funcObj) deployment of
                  Inl err \<Rightarrow> Inl err
                | Inr merged \<Rightarrow> Inr (funcObj\<lparr>fn_Deployment := merged\<rparr>))))"

text \<open>
  Lines 255-275: the autoscaler. \<open>Metrics[0]\<close> panics on an empty list, \<open>*c.smclient\<close>
  panics on a nil client.
\<close>

definition ensureAutoscale ::
  "Controller \<Rightarrow> Function \<Rightarrow> OwnerReference list \<Rightarrow> world
     \<Rightarrow> error option result \<times> Function \<times> world" where
  "ensureAutoscale c funcObj oref w =
     (if hpa_Name (fn_HorizontalPodAutoscaler funcObj) \<noteq> []
         \<and> hpa_ScaleTargetRef_Name (fn_HorizontalPodAutoscaler funcObj) \<noteq> []
      then
        (let funcObj1 = funcObj\<lparr>fn_HorizontalPodAutoscaler :=
                          (fn_HorizontalPodAutoscaler funcObj)\<lparr>hpa_OwnerReferences := oref\<rparr>\<rparr>
         in case hpa_Metrics (fn_HorizontalPodAutoscaler funcObj1) of
              [] \<Rightarrow> (Panics, funcObj1, w)
            | metric0 # _ \<Rightarrow>
                (let (err1, w1) =
                       (if metric_Type metric0 = ObjectMetricSourceType
                        then (if smclient c
                              then (case request c
                                           (CreateServiceMonitor funcObj1 (fn_Namespace funcObj1) oref) w
                                    of (err, w') \<Rightarrow> (Returns err, w'))
                              else (Panics, w))
                        else (Returns None, w))
                 in case err1 of
                      Returns None \<Rightarrow>
                        (let (err, w2) =
                               request c (CreateAutoscale (fn_HorizontalPodAutoscaler funcObj1)) w1
                         in (Returns err, funcObj1, w2))
                    | _ \<Rightarrow> (err1, funcObj1, w1)))
      else
        (let (err, w1) = deleteAutoscale c (fn_Namespace funcObj) (fn_Name funcObj) w
         in if notNilNorNotFound err then (Returns err, funcObj, w1)
            else (Returns None, funcObj, w1)))"

text \<open>Lines 243-253: the cron job of a scheduled function.\<close>

definition ensureScheduled ::
  "Controller \<Rightarrow> Function \<Rightarrow> OwnerReference list \<Rightarrow> world \<Rightarrow> error option \<times> world" where
  "ensureScheduled c funcObj oref w =
     (if fn_Type funcObj = ''Scheduled''
      then (case getResouceGroupVersion c ''cronjobs'' w of
              (Inl err, w1) \<Rightarrow> (Some err, w1)
            | (Inr groupVersion, w1) \<Rightarrow> request c (EnsureFuncCronJob funcObj oref groupVersion) w1)
      else (None, w))"

text \<open>
  Lines 228-275: the config map, the service and the deployment are ensured, then the cron
  job and the autoscaler; the first error returns (the owner references \<open>or\<close> of the source
  are \<open>oref\<close> here).
\<close>

definition ensureObjects ::
  "Controller \<Rightarrow> Function \<Rightarrow> OwnerReference list \<Rightarrow> world
     \<Rightarrow> error option result \<times> Function \<times> world" where
  "ensureObjects c funcObj oref w =
     (case request c (EnsureFuncConfigMap funcObj oref) w of
        (Some err, w1) \<Rightarrow> (Returns (Some err), funcObj, w1)
      | (None, w1) \<Rightarrow>
          (case request c (EnsureFuncService funcObj oref) w1 of
             (Some err, w2) \<Rightarrow> (Returns (Some err), funcObj, w2)
           | (None, w2) \<Rightarrow>
               (case request c (EnsureFuncDeployment funcObj oref) w2 of
                  (Some err, w3) \<Rightarrow> (Returns (Some err), funcObj, w3)
                | (None, w3) \<Rightarrow>
                    (case ensureScheduled c funcObj oref w3 of
                       (Some err, w4) \<Rightarrow> (Returns (Some err), funcObj, w4)
                     | (None, w4) \<Rightarrow> ensureAutoscale c funcObj oref w4))))"

text \<open>
  The whole function: the labels, the configured deployment and the owner reference
  (lines 204-226), then the objects. The Function is passed by pointer, so what the
  function has written to it is returned with the result.
\<close>

definition ensureK8sResources ::
  "Controller \<Rightarrow> Function \<Rightarrow> world \<Rightarrow> error option result \<times> Function \<times> world" where
  "ensureK8sResources c funcObj0 w =
     (case normalizeLabels funcObj0 of
        Returns funcObj1 \<Rightarrow>
          (case mergeConfiguredDeployment c funcObj1 of
             Inl err \<Rightarrow> (Returns (Some err), funcObj1, w)
           | Inr funcObj \<Rightarrow>
               (case GetOwnerReference c funcObj of
                  Inl err \<Rightarrow> (Returns (Some err), funcObj, w)
                | Inr oref \<Rightarrow> ensureObjects c funcObj oref w))
      | _ \<Rightarrow> (Panics, funcObj0, w))"

subsection \<open>processItem (lines 332-365) and processNextItem (lines 158-180)\<close>

definition processItem :: "Controller \<Rightarrow> string \<Rightarrow> world \<Rightarrow> error option result \<times> world" where
  "processItem c key w =
     (case SplitMetaNamespaceKey key of
        Inl err \<Rightarrow> (Returns (Some err), w)
      | Inr (ns, name) \<Rightarrow>
          (case indexer c key of
             Inl err \<Rightarrow> (Returns (Some (StoreFetchError key err)), w)
           | Inr None \<Rightarrow>
               (case deleteK8sResources c ns name w of
                  (Some err, w1) \<Rightarrow> (Returns (Some err), w1)
                | (None, w1) \<Rightarrow> (Returns None, w1))
           | Inr (Some funcObj) \<Rightarrow>
               (case ensureK8sResources c funcObj w of
                  (Returns (Some err), _, w1) \<Rightarrow> (Returns (Some err), w1)
                | (Returns None, _, w1) \<Rightarrow> (Returns None, w1)
                | (r, _, w1) \<Rightarrow> (r, w1))))"

text \<open>
  One turn of the worker. \<open>Done\<close> is deferred: it runs last, also when \<open>processItem\<close>
  panics.
\<close>

definition processNextItem ::
  "Controller \<Rightarrow> workqueue \<times> world \<Rightarrow> bool result \<times> workqueue \<times> world" where
  "processNextItem c s =
     (case s of (q, w) \<Rightarrow>
        (case Get q of
           (Returns (key, quit), q1) \<Rightarrow>
             (if quit then (Returns False, q1, w)
              else (case processItem c key w of
                      (Returns err, w1) \<Rightarrow>
                        (let q2 = (if err = None then Forget key q1
                                   else if NumRequeues q1 key < maxRetries
                                        then AddRateLimited key q1
                                        else Forget key q1)
                         in (Returns True, Done key q2, w1))
                    | (Panics, w1) \<Rightarrow> (Panics, Done key q1, w1)
                    | (Blocks, w1) \<Rightarrow> (Blocks, Done key q1, w1)))
         | (Panics, q1) \<Rightarrow> (Panics, q1, w)
         | (Blocks, q1) \<Rightarrow> (Blocks, q1, w)))"

subsection \<open>garbageCollect (lines 367-448)\<close>

text \<open>
  The loop of \<open>collectServices\<close>, \<open>collectDeployment\<close> and \<open>collectConfigMap\<close>: the three
  loops have the same body, over the metadata of the listed items.
\<close>

fun collectItems :: "ObjectMeta list \<Rightarrow> workqueue \<Rightarrow> workqueue" where
  "collectItems [] q = q"
| "collectItems (m # rest) q =
     (case om_OwnerReferences m of
        [] \<Rightarrow> collectItems rest q
      | owner0 # _ \<Rightarrow>
          (if or_Kind owner0 = funcKind \<and> or_APIVersion owner0 = funcAPI
           then collectItems rest (Add (om_Namespace m @ ''/'' @ or_Name owner0) q)
           else collectItems rest q))"

definition collectServices ::
  "Controller \<Rightarrow> workqueue \<times> world \<Rightarrow> error option \<times> workqueue \<times> world" where
  "collectServices c s =
     (case s of (q, w) \<Rightarrow>
        (case lister c w ServicesList of
           Inl err \<Rightarrow> (Some err, q, w @ [(ServicesList, Some err)])
         | Inr srvs \<Rightarrow> (None, collectItems srvs q, w @ [(ServicesList, None)])))"

definition collectDeployment ::
  "Controller \<Rightarrow> workqueue \<times> world \<Rightarrow> error option \<times> workqueue \<times> world" where
  "collectDeployment c s =
     (case s of (q, w) \<Rightarrow>
        (case lister c w DeploymentsList of
           Inl err \<Rightarrow> (Some err, q, w @ [(DeploymentsList, Some err)])
         | Inr ds \<Rightarrow> (None, collectItems ds q, w @ [(DeploymentsList, None)])))"

definition collectConfigMap ::
  "Controller \<Rightarrow> workqueue \<times> world \<Rightarrow> error option \<times> workqueue \<times> world" where
  "collectConfigMap c s =
     (case s of (q, w) \<Rightarrow>
        (case lister c w ConfigMapsList of
           Inl err \<Rightarrow> (Some err, q, w @ [(ConfigMapsList, Some err)])
         | Inr cm \<Rightarrow> (None, collectItems cm q, w @ [(ConfigMapsList, None)])))"

definition garbageCollect ::
  "Controller \<Rightarrow> workqueue \<times> world \<Rightarrow> error option \<times> workqueue \<times> world" where
  "garbageCollect c s =
     (case collectServices c s of
        (Some err, s1) \<Rightarrow> (Some err, s1)
      | (None, s1) \<Rightarrow>
          (case collectDeployment c s1 of
             (Some err, s2) \<Rightarrow> (Some err, s2)
           | (None, s2) \<Rightarrow>
               (case collectConfigMap c s2 of
                  (Some err, s3) \<Rightarrow> (Some err, s3)
                | (None, s3) \<Rightarrow> (None, s3))))"

subsection \<open>Notions used to state the properties\<close>

text \<open>The events that a call has appended to the trace \<open>w\<close>.\<close>

definition newEvents :: "world \<Rightarrow> world \<Rightarrow> event list" where
  "newEvents w w' = drop (length w) w'"

text \<open>The requests that delete an object.\<close>

fun isDeleteCall :: "call \<Rightarrow> bool" where
  "isDeleteCall (CronJobsDelete _ _) = True"
| "isDeleteCall (DeploymentsDelete _ _) = True"
| "isDeleteCall (ServicesDelete _ _) = True"
| "isDeleteCall (ConfigMapsDelete _ _) = True"
| "isDeleteCall (DeleteServiceMonitor _ _) = True"
| "isDeleteCall (DeleteAutoscale _ _) = True"
| "isDeleteCall _ = False"

text \<open>
  Every request the delete path can send for a function: the probe for its cron job and the
  deletion of each kind of managed object.
\<close>

definition managedResourceRequests :: "string \<Rightarrow> string \<Rightarrow> call list" where
  "managedResourceRequests ns name =
     [CronJobsGet ns (''trigger-'' @ name), CronJobsDelete ns (''trigger-'' @ name),
      DeploymentsDelete ns name, ServicesDelete ns name, ConfigMapsDelete ns name,
      DeleteServiceMonitor name ns, DeleteAutoscale name ns]"

text \<open>Requests sent one after the other, stopping at the first error that is not "not found".\<close>

fun runDeletes :: "Controller \<Rightarrow> call list \<Rightarrow> world \<Rightarrow> error option \<times> world" where
  "runDeletes c [] w = (None, w)"
| "runDeletes c (rq # rqs) w =
     (case request c rq w of
        (err, w1) \<Rightarrow> if notNilNorNotFound err then (err, w1) else runDeletes c rqs w1)"

text \<open>The requests that create or update an object.\<close>

fun isEnsureCall :: "call \<Rightarrow> bool" where
  "isEnsureCall (EnsureFuncConfigMap _ _) = True"
| "isEnsureCall (EnsureFuncService _ _) = True"
| "isEnsureCall (EnsureFuncDeployment _ _) = True"
| "isEnsureCall (EnsureFuncCronJob _ _ _) = True"
| "isEnsureCall (CreateServiceMonitor _ _ _) = True"
| "isEnsureCall (CreateAutoscale _) = True"
| "isEnsureCall _ = False"

text \<open>The Function a request carries, if any.\<close>

fun callFunction :: "call \<Rightarrow> Function option" where
  "callFunction (EnsureFuncConfigMap f _) = Some f"
| "callFunction (EnsureFuncService f _) = Some f"
| "callFunction (EnsureFuncDeployment f _) = Some f"
| "callFunction (EnsureFuncCronJob f _ _) = Some f"
| "callFunction (CreateServiceMonitor f _ _) = Some f"
| "callFunction _ = None"

text \<open>
  What the cron-job stage and the autoscaler stage of the ensure path can add to the trace,
  with the value each returns.
\<close>

definition scheduledStage ::
  "Function \<Rightarrow> OwnerReference list \<Rightarrow> error option \<Rightarrow> event list \<Rightarrow> bool" where
  "scheduledStage f oref r es \<longleftrightarrow>
     (es = [] \<and> r = None \<and> fn_Type f \<noteq> ''Scheduled'') \<or>
     (fn_Type f = ''Scheduled'' \<and>
      ((\<exists>e. es = [(ServerResources, Some e)] \<and> r = Some e) \<or>
       (es = [(ServerResources, None)] \<and> r = Some (ResourceNotInAnyGroup ''cronjobs'')) \<or>
       (\<exists>gv. es = [(ServerResources, None), (EnsureFuncCronJob f oref gv, r)])))"

definition autoscaleStage ::
  "Controller \<Rightarrow> Function \<Rightarrow> OwnerReference list \<Rightarrow> error option result \<Rightarrow> Function
     \<Rightarrow> event list \<Rightarrow> bool" where
  "autoscaleStage c f oref res f' es \<longleftrightarrow>
     (if hpa_Name (fn_HorizontalPodAutoscaler f) \<noteq> []
         \<and> hpa_ScaleTargetRef_Name (fn_HorizontalPodAutoscaler f) \<noteq> []
      then f' = f\<lparr>fn_HorizontalPodAutoscaler :=
                    (fn_HorizontalPodAutoscaler f)\<lparr>hpa_OwnerReferences := oref\<rparr>\<rparr> \<and>
           (case hpa_Metrics (fn_HorizontalPodAutoscaler f) of
              [] \<Rightarrow> res = Panics \<and> es = []
            | m # _ \<Rightarrow>
                if metric_Type m = ObjectMetricSourceType
                then (if smclient c
                      then (\<exists>e. es = [(CreateServiceMonitor f' (fn_Namespace f) oref, Some e)] \<and>
                                res = Returns (Some e)) \<or>
                           (\<exists>r. es = [(CreateServiceMonitor f' (fn_Namespace f) oref, None),
                                      (CreateAutoscale (fn_HorizontalPodAutoscaler f'), r)] \<and>
                                res = Returns r)
                      else res = Panics \<and> es = [])
                else (\<exists>r. es = [(CreateAutoscale (fn_HorizontalPodAutoscaler f'), r)] \<and>
                          res = Returns r))
      else f' = f \<and>
           (\<exists>r. res = Returns r \<and> (r = None \<or> notNilNorNotFound r)) \<and>
           fst ` set es \<subseteq> {DeleteServiceMonitor (fn_Name f) (fn_Namespace f),
                             DeleteAutoscale (fn_Name f) (fn_Namespace f)})"

text \<open>
  The sweep in the words of the specification: an object is owned by a Function when its
  owner-reference list is not empty and the first reference has kind "Function" and
  api-group "kubeless.io"; its key is namespace/ownerName.
\<close>

definition ownedByFunction :: "ObjectMeta \<Rightarrow> bool" where
  "ownedByFunction m =
     (case om_OwnerReferences m of
        [] \<Rightarrow> False
      | owner0 # _ \<Rightarrow> or_Kind owner0 = ''Function'' \<and> or_APIVersion owner0 = ''kubeless.io'')"

definition ownerKey :: "ObjectMeta \<Rightarrow> string" where
  "ownerKey m = om_Namespace m @ ''/'' @ or_Name (hd (om_OwnerReferences m))"

definition enqueueOwners :: "ObjectMeta list \<Rightarrow> workqueue \<Rightarrow> workqueue" where
  "enqueueOwners items q = foldl (\<lambda>q' k. Add k q') q (map ownerKey (filter ownedByFunction items))"

text \<open>The lists that contain a resource named \<open>target\<close>, in discovery order.\<close>

definition listsNaming :: "string \<Rightarrow> APIResourceList list \<Rightarrow> APIResourceList list" where
  "listsNaming target resources =
     filter (\<lambda>resource. target \<in> ar_Name ` set (arl_APIResources resource)) resources"

text \<open>
  A key that is tried again and again: after each turn of the worker the backoff timers
  fire, so a key that was re-queued with \<open>AddRateLimited\<close> is pending again.
\<close>

fun consecutiveAttempts ::
  "Controller \<Rightarrow> nat \<Rightarrow> workqueue \<times> world \<Rightarrow> workqueue \<times> world" where
  "consecutiveAttempts c 0 s = s"
| "consecutiveAttempts c (Suc n) s =
     (case processNextItem c s of (_, q, w) \<Rightarrow> consecutiveAttempts c n (timersFire q, w))"

text \<open>The queue in which only \<open>key\<close> is pending, with \<open>n\<close> recorded failures.\<close>

definition pendingWithFailures :: "string \<Rightarrow> nat \<Rightarrow> workqueue" where
  "pendingWithFailures key n =
     \<lparr>queue = [key], dirty = {key}, processing = {}, shuttingDown = False,
      failures = (\<lambda>k. if k = key then n else 0), waitingForAdd = []\<rparr>"

subsection \<open>Example inputs\<close>

text \<open>
  A function with no labels and no autoscaler; the same function once labelled, with its
  owner reference; and a function whose autoscaler has no metrics.
\<close>

definition exampleFunction :: Function where
  "exampleFunction =
     \<lparr>fn_Namespace = ''default'', fn_Name = ''hello'', fn_Labels = None, fn_Type = ''HTTP'',
      fn_Deployment = [],
      fn_HorizontalPodAutoscaler =
        \<lparr>hpa_Name = [], hpa_OwnerReferences = [], hpa_ScaleTargetRef_Name = [],
         hpa_Metrics = []\<rparr>\<rparr>"

definition labelledExample :: Function where
  "labelledExample = exampleFunction\<lparr>fn_Labels := Some [(''function'', ''hello'')]\<rparr>"

definition exampleOwner :: "OwnerReference list" where
  "exampleOwner =
     [\<lparr>or_APIVersion = ''kubeless.io/v1beta1'', or_Kind = ''Function'', or_Name = ''hello''\<rparr>]"

definition autoscaledFunction :: Function where
  "autoscaledFunction =
     exampleFunction\<lparr>fn_HorizontalPodAutoscaler :=
       \<lparr>hpa_Name = ''hello'', hpa_OwnerReferences = [], hpa_ScaleTargetRef_Name = ''hello'',
        hpa_Metrics = []\<rparr>\<rparr>"

text \<open>
  A cluster on which every request succeeds and the cache is empty; one on which every
  request fails; one on which nothing exists, so that every request answers "not found";
  one that refuses the service; one whose cache holds the example function under every key.
\<close>

definition exampleController :: Controller where
  "exampleController =
     \<lparr>clientset = (\<lambda>w rq. None), discovery = (\<lambda>w. Inr []), lister = (\<lambda>w rq. Inr []),
      smclient = True, indexer = (\<lambda>key. Inr None), config_Data = [],
      yamlUnmarshal = (\<lambda>s. Inr s), MergeDeployments = (\<lambda>d s. Inr d),
      GetOwnerReference =
        (\<lambda>f. Inr [\<lparr>or_APIVersion = ''kubeless.io/v1beta1'', or_Kind = ''Function'',
                   or_Name = fn_Name f\<rparr>])\<rparr>"

definition failingController :: Controller where
  "failingController = exampleController\<lparr>clientset := (\<lambda>w rq. Some (APIError ''timeout''))\<rparr>"

definition absentController :: Controller where
  "absentController = exampleController\<lparr>clientset := (\<lambda>w rq. Some (NotFound ''not found''))\<rparr>"

definition serviceFailingController :: Controller where
  "serviceFailingController =
     exampleController\<lparr>clientset :=
       (\<lambda>w rq. case rq of EnsureFuncService _ _ \<Rightarrow> Some (APIError ''denied'') | _ \<Rightarrow> None)\<rparr>"

definition presentController :: Controller where
  "presentController = exampleController\<lparr>indexer := (\<lambda>key. Inr (Some exampleFunction))\<rparr>"

text \<open>Listed objects and a cluster that lists them.\<close>

definition exampleService :: ObjectMeta where
  "exampleService =
     \<lparr>om_Namespace = ''default'',
      om_OwnerReferences =
        [\<lparr>or_APIVersion = ''kubeless.io'', or_Kind = ''Function'', or_Name = ''orphan''\<rparr>]\<rparr>"

definition foreignService :: ObjectMeta where
  "foreignService =
     \<lparr>om_Namespace = ''kube-system'',
      om_OwnerReferences =
        [\<lparr>or_APIVersion = ''apps/v1'', or_Kind = ''ReplicaSet'', or_Name = ''dns''\<rparr>]\<rparr>"

definition unownedConfigMap :: ObjectMeta where
  "unownedConfigMap = \<lparr>om_Namespace = ''default'', om_OwnerReferences = []\<rparr>"

definition listingController :: Controller where
  "listingController =
     exampleController\<lparr>lister :=
       (\<lambda>w rq. case rq of ServicesList \<Rightarrow> Inr [foreignService, exampleService]
                | ConfigMapsList \<Rightarrow> Inr [unownedConfigMap]
                | _ \<Rightarrow> Inr [])\<rparr>"

text \<open>Discovered resource lists and clusters that return them.\<close>

definition batchV1beta1 :: APIResourceList where
  "batchV1beta1 =
     \<lparr>arl_GroupVersion = ''batch/v1beta1'', arl_APIResources = [\<lparr>ar_Name = ''cronjobs''\<rparr>]\<rparr>"

definition batchV2alpha1 :: APIResourceList where
  "batchV2alpha1 =
     \<lparr>arl_GroupVersion = ''batch/v2alpha1'',
      arl_APIResources = [\<lparr>ar_Name = ''jobs''\<rparr>, \<lparr>ar_Name = ''cronjobs''\<rparr>]\<rparr>"

definition coreV1 :: APIResourceList where
  "coreV1 =
     \<lparr>arl_GroupVersion = ''v1'',
      arl_APIResources = [\<lparr>ar_Name = ''pods''\<rparr>, \<lparr>ar_Name = ''services''\<rparr>]\<rparr>"

definition unnamedGroup :: APIResourceList where
  "unnamedGroup = \<lparr>arl_GroupVersion = [], arl_APIResources = [\<lparr>ar_Name = ''cronjobs''\<rparr>]\<rparr>"

definition twoVersionsController :: Controller where
  "twoVersionsController =
     exampleController\<lparr>discovery := (\<lambda>w. Inr [batchV1beta1, batchV2alpha1, coreV1])\<rparr>"

definition unnamedGroupController :: Controller where
  "unnamedGroupController = exampleController\<lparr>discovery := (\<lambda>w. Inr [coreV1, unnamedGroup])\<rparr>"

section \<open>Properties\<close>

lemmas queue_defs = processNextItem_def Get_def Done_def Forget_def AddRateLimited_def
        NumRequeues_def maxRetries_def Add_def NewRateLimitingQueue_def timersFire_def

lemmas delete_defs = deleteK8sResources_def deleteAutoscale_def request_def
  notNilNorNotFound_def Let_def

subsection \<open>The worker's retry policy\<close>

lemma Add_fresh: "Add key NewRateLimitingQueue = pendingWithFailures key 0"
  by (simp add: Add_def NewRateLimitingQueue_def pendingWithFailures_def)

text \<open>One turn of the worker on a queue whose oldest pending key is \<open>key\<close>.\<close>

lemma processNextItem_head:
  assumes "queue q = key # rest" and "processItem c key w = (Returns err, w1)"
  shows "processNextItem c (q, w) =
    (Returns True,
     (if err = None \<or> \<not> failures q key < 5
      then q\<lparr>queue := rest, dirty := dirty q - {key}, processing := processing q - {key},
             failures := (failures q)(key := 0)\<rparr>
      else q\<lparr>queue := rest, dirty := dirty q - {key}, processing := processing q - {key},
             failures := (failures q)(key := failures q key + 1),
             waitingForAdd :=
               (if shuttingDown q then waitingForAdd q else waitingForAdd q @ [key])\<rparr>),
     w1)"
  using assms
  by (simp add: processNextItem_def Get_def Done_def Forget_def AddRateLimited_def
        NumRequeues_def maxRetries_def Let_def)

lemma failing_round:
  assumes "processItem c key w = (Returns (Some e), w1)" and "n < 5"
    and "processNextItem c (pendingWithFailures key n, w) = (r, q, w')"
  shows "r = Returns True \<and> timersFire q = pendingWithFailures key (Suc n) \<and> w' = w1"
  using assms
  by (auto simp add: processNextItem_head [where rest = "[]"] pendingWithFailures_def
        timersFire_def Add_def fun_eq_iff)

lemma last_round:
  assumes "processItem c key w = (Returns (Some e), w1)"
    and "processNextItem c (pendingWithFailures key 5, w) = (r, q, w')"
  shows "r = Returns True \<and> q = NewRateLimitingQueue \<and> w' = w1"
  using assms
  by (auto simp add: processNextItem_head [where rest = "[]"] pendingWithFailures_def
        NewRateLimitingQueue_def fun_eq_iff)

lemma timersFire_New: "timersFire NewRateLimitingQueue = NewRateLimitingQueue"
  by (simp add: timersFire_def NewRateLimitingQueue_def)

lemma empty_queue_blocks:
  "processNextItem c (NewRateLimitingQueue, w) = (Blocks, NewRateLimitingQueue, w)"
  by (simp add: processNextItem_def Get_def NewRateLimitingQueue_def)

lemma failing_attempts:
  assumes fails: "\<forall>w0. \<exists>e w'. processItem c key w0 = (Returns (Some e), w')"
  shows "m + n \<le> 5 \<Longrightarrow>
    fst (consecutiveAttempts c n (pendingWithFailures key m, w)) = pendingWithFailures key (m + n)"
proof (induction n arbitrary: m w)
  case 0
  then show ?case by simp
next
  case (Suc n)
  obtain e w1 where p: "processItem c key w = (Returns (Some e), w1)"
    using fails by blast
  obtain r q w' where t: "processNextItem c (pendingWithFailures key m, w) = (r, q, w')"
    by (cases "processNextItem c (pendingWithFailures key m, w)") auto
  from Suc.prems have "m < 5" by simp
  from failing_round [OF p this t]
  have q: "timersFire q = pendingWithFailures key (Suc m)" by simp
  from Suc.prems have "Suc m + n \<le> 5" by simp
  from Suc.IH [OF this] show ?case
    by (simp add: t q)
qed

lemma sixth_failure:
  assumes fails: "\<forall>w0. \<exists>e w'. processItem c key w0 = (Returns (Some e), w')"
  shows "fst (consecutiveAttempts c 6 (Add key NewRateLimitingQueue, w)) = NewRateLimitingQueue"
proof -
  obtain e w1 where p: "processItem c key w = (Returns (Some e), w1)"
    using fails by blast
  obtain r q w' where t: "processNextItem c (pendingWithFailures key 0, w) = (r, q, w')"
    by (cases "processNextItem c (pendingWithFailures key 0, w)") auto
  from failing_round [OF p _ t]
  have q: "timersFire q = pendingWithFailures key (Suc 0)" by simp
  have five: "fst (consecutiveAttempts c 4 (pendingWithFailures key (Suc 0), w')) =
      pendingWithFailures key 5"
    using failing_attempts [OF fails, of "Suc 0" 4 w'] by simp
  obtain s5 w5 where s5: "consecutiveAttempts c 4 (pendingWithFailures key (Suc 0), w') = (s5, w5)"
    by (cases "consecutiveAttempts c 4 (pendingWithFailures key (Suc 0), w')") auto
  with five have s5q: "s5 = pendingWithFailures key 5" by simp
  have split: "consecutiveAttempts c (Suc (a + b)) s =
      consecutiveAttempts c (Suc b) (consecutiveAttempts c a s)" for a b s
    by (induction a arbitrary: s) (auto split: prod.splits)
  obtain e6 w6 where p6: "processItem c key w5 = (Returns (Some e6), w6)"
    using fails by blast
  obtain r6 q6 w6' where t6: "processNextItem c (pendingWithFailures key 5, w5) = (r6, q6, w6')"
    by (cases "processNextItem c (pendingWithFailures key 5, w5)") auto
  from last_round [OF p6 t6] have q6: "q6 = NewRateLimitingQueue" by simp
  have "consecutiveAttempts c 6 (pendingWithFailures key 0, w) =
      consecutiveAttempts c 5 (pendingWithFailures key (Suc 0), w')"
    by (simp add: eval_nat_numeral t q)
  also have "\<dots> = consecutiveAttempts c (Suc 0) (s5, w5)"
    using split [of 4 0 "(pendingWithFailures key (Suc 0), w')"] by (simp add: s5)
  also have "\<dots> = (NewRateLimitingQueue, w6')"
    by (simp add: s5q t6 q6 timersFire_New)
  finally show ?thesis by (simp add: Add_fresh)
qed

text \<open>
  C3. When the oldest pending key is processed, the worker's turn returns true and the
  key leaves the queue. If processing returned no error, the key's failure count is
  cleared. If it returned an error and the failure count is below \<open>maxRetries\<close> = 5, the
  count grows by one and the key waits for its backoff timer (unless the queue is shutting
  down). If it returned an error and the count has reached 5, the count is cleared and the
  key is not put back. Hence a key whose processing always fails is pending again after
  each of its first five failures, and after the sixth the queue is as new: nothing is
  pending or waiting, and the worker blocks.
\<close>

theorem processNextItem_retry_policy:
  "(queue q = key # rest \<and> processItem c key w = (Returns err, w1) \<longrightarrow>
      fst (processNextItem c (q, w)) = Returns True \<and>
      (let q' = fst (snd (processNextItem c (q, w))) in
         queue q' = rest \<and>
         (err = None \<longrightarrow>
            NumRequeues q' key = 0 \<and> waitingForAdd q' = waitingForAdd q) \<and>
         (err \<noteq> None \<and> NumRequeues q key < maxRetries \<and> \<not> shuttingDown q \<longrightarrow>
            NumRequeues q' key = NumRequeues q key + 1 \<and>
            waitingForAdd q' = waitingForAdd q @ [key]) \<and>
         (err \<noteq> None \<and> \<not> NumRequeues q key < maxRetries \<longrightarrow>
            NumRequeues q' key = 0 \<and> waitingForAdd q' = waitingForAdd q))) \<and>
   ((\<forall>wa. \<exists>e w'. processItem c key wa = (Returns (Some e), w')) \<longrightarrow>
      (\<forall>n\<le>5. fst (consecutiveAttempts c n (Add key NewRateLimitingQueue, w0)) =
                pendingWithFailures key n) \<and>
      fst (consecutiveAttempts c 6 (Add key NewRateLimitingQueue, w0)) = NewRateLimitingQueue \<and>
      fst (processNextItem c (NewRateLimitingQueue, w2)) = Blocks)"
proof (intro conjI impI)
  assume a: "queue q = key # rest \<and> processItem c key w = (Returns err, w1)"
  then show "fst (processNextItem c (q, w)) = Returns True"
    by (simp add: processNextItem_head [of q key rest c w err w1])
  from a show "let q' = fst (snd (processNextItem c (q, w))) in
         queue q' = rest \<and>
         (err = None \<longrightarrow>
            NumRequeues q' key = 0 \<and> waitingForAdd q' = waitingForAdd q) \<and>
         (err \<noteq> None \<and> NumRequeues q key < maxRetries \<and> \<not> shuttingDown q \<longrightarrow>
            NumRequeues q' key = NumRequeues q key + 1 \<and>
            waitingForAdd q' = waitingForAdd q @ [key]) \<and>
         (err \<noteq> None \<and> \<not> NumRequeues q key < maxRetries \<longrightarrow>
            NumRequeues q' key = 0 \<and> waitingForAdd q' = waitingForAdd q)"
    by (simp add: processNextItem_head [of q key rest c w err w1] NumRequeues_def
          maxRetries_def Let_def)
next
  assume fails: "\<forall>wa. \<exists>e w'. processItem c key wa = (Returns (Some e), w')"
  show "\<forall>n\<le>5. fst (consecutiveAttempts c n (Add key NewRateLimitingQueue, w0)) =
                pendingWithFailures key n"
    using failing_attempts [OF fails, of 0 _ w0] by (simp add: Add_fresh)
  show "fst (consecutiveAttempts c 6 (Add key NewRateLimitingQueue, w0)) = NewRateLimitingQueue"
    by (rule sixth_failure [OF fails])
  show "fst (processNextItem c (NewRateLimitingQueue, w2)) = Blocks"
    by (simp add: empty_queue_blocks)
qed

theorem processNextItem_retry_policy_witness:
  "waitingForAdd (fst (snd (processNextItem failingController
      (Add ''default/hello'' NewRateLimitingQueue, [])))) = [''default/hello''] \<and>
   NumRequeues (fst (snd (processNextItem failingController
      (Add ''default/hello'' NewRateLimitingQueue, [])))) ''default/hello'' = 1 \<and>
   NumRequeues (fst (snd (processNextItem exampleController
      (pendingWithFailures ''default/hello'' 3, [])))) ''default/hello'' = 0 \<and>
   NumRequeues (fst (snd (processNextItem failingController
      (pendingWithFailures ''default/hello'' 5, [])))) ''default/hello'' = 0 \<and>
   waitingForAdd (fst (snd (processNextItem failingController
      (pendingWithFailures ''default/hello'' 5, [])))) = [] \<and>
   fst (consecutiveAttempts failingController 6
      (Add ''default/hello'' NewRateLimitingQueue, [])) = NewRateLimitingQueue"
proof -
  have split: "SplitMetaNamespaceKey ''default/hello'' = Inr (''default'', ''hello'')"
    by (simp add: SplitMetaNamespaceKey_def)
  have p: "processItem failingController ''default/hello'' w =
      (Returns (Some (APIError ''timeout'')),
       w @ [(CronJobsGet ''default'' ''trigger-hello'', Some (APIError ''timeout'')),
            (DeploymentsDelete ''default'' ''hello'', Some (APIError ''timeout''))])" for w
    by (simp add: processItem_def split failingController_def exampleController_def delete_defs)
  have ok: "processItem exampleController ''default/hello'' [] =
      (Returns None,
       [(CronJobsGet ''default'' ''trigger-hello'', None),
        (CronJobsDelete ''default'' ''trigger-hello'', None),
        (DeploymentsDelete ''default'' ''hello'', None),
        (ServicesDelete ''default'' ''hello'', None),
        (ConfigMapsDelete ''default'' ''hello'', None),
        (DeleteServiceMonitor ''hello'' ''default'', None),
        (DeleteAutoscale ''hello'' ''default'', None)])"
    by (simp add: processItem_def split exampleController_def delete_defs)
  have fails: "\<forall>wa. \<exists>e w'. processItem failingController ''default/hello'' wa = (Returns (Some e), w')"
    using p by blast
  note a = processNextItem_retry_policy [where c = failingController and key = "''default/hello''"
       and q = "Add ''default/hello'' NewRateLimitingQueue" and rest = "[]" and w = "[]"
       and err = "Some (APIError ''timeout'')" and ?w0.0 = "[]", unfolded p]
  note b = processNextItem_retry_policy [where c = exampleController and key = "''default/hello''"
       and q = "pendingWithFailures ''default/hello'' 3" and rest = "[]" and w = "[]"
       and err = None, unfolded ok]
  note d = processNextItem_retry_policy [where c = failingController and key = "''default/hello''"
       and q = "pendingWithFailures ''default/hello'' 5" and rest = "[]" and w = "[]"
       and err = "Some (APIError ''timeout'')" and ?w0.0 = "[]", unfolded p]
  from a b d fails show ?thesis
    by (simp add: Add_fresh pendingWithFailures_def NumRequeues_def maxRetries_def Let_def)
qed

subsection \<open>Malformed keys\<close>

text \<open>
  C1 (as amended). A key that \<open>SplitMetaNamespaceKey\<close> rejects makes \<open>processItem\<close> return the
  splitter's error at once: the cache is not consulted and no request is sent. The worker
  treats this error as any other: at the head of a queue that is not shutting down, the
  key is re-queued with backoff while its failure count is below \<open>maxRetries\<close>, and it is
  dropped, with its count cleared, only when the count has reached \<open>maxRetries\<close>.
\<close>

theorem processItem_malformed_key:
  assumes "SplitMetaNamespaceKey key = Inl e"
  shows "processItem c key w = (Returns (Some e), w) \<and>
    (queue q = key # rest \<and> \<not> shuttingDown q \<longrightarrow>
       fst (processNextItem c (q, w)) = Returns True \<and>
       (let q' = fst (snd (processNextItem c (q, w))) in
          (NumRequeues q key < maxRetries \<longrightarrow>
             waitingForAdd q' = waitingForAdd q @ [key] \<and>
             NumRequeues q' key = NumRequeues q key + 1) \<and>
          (\<not> NumRequeues q key < maxRetries \<longrightarrow>
             waitingForAdd q' = waitingForAdd q \<and> queue q' = rest \<and>
             NumRequeues q' key = 0)))"
proof -
  have p: "processItem c key w = (Returns (Some e), w)"
    using assms by (simp add: processItem_def)
  show ?thesis
    by (simp add: p processNextItem_head [OF _ p] NumRequeues_def maxRetries_def Let_def)
qed

theorem processItem_malformed_key_witness:
  "SplitMetaNamespaceKey ''a/b/c'' = Inl (KeyFormatError ''a/b/c'') \<and>
   processItem exampleController ''a/b/c'' [] = (Returns (Some (KeyFormatError ''a/b/c'')), []) \<and>
   waitingForAdd (fst (snd (processNextItem exampleController
      (pendingWithFailures ''a/b/c'' 4, [])))) = [''a/b/c''] \<and>
   waitingForAdd (fst (snd (processNextItem exampleController
      (pendingWithFailures ''a/b/c'' 5, [])))) = [] \<and>
   queue (fst (snd (processNextItem exampleController
      (pendingWithFailures ''a/b/c'' 5, [])))) = []"
proof -
  have s: "SplitMetaNamespaceKey ''a/b/c'' = Inl (KeyFormatError ''a/b/c'')"
    by (simp add: SplitMetaNamespaceKey_def)
  from processItem_malformed_key [OF s, of exampleController "[]" "pendingWithFailures ''a/b/c'' 4" "[]"]
    processItem_malformed_key [OF s, of exampleController "[]" "pendingWithFailures ''a/b/c'' 5" "[]"]
    s
  show ?thesis
    by (simp add: pendingWithFailures_def NumRequeues_def maxRetries_def Let_def)
qed

text \<open>
  C1 as stated fails: the malformed key \<open>a/b/c\<close>, processed for the first time, is handed to
  \<open>AddRateLimited\<close> and is pending again once its timer has fired.
\<close>

theorem malformed_key_is_retried:
  "SplitMetaNamespaceKey ''a/b/c'' = Inl (KeyFormatError ''a/b/c'') \<and>
   waitingForAdd (fst (snd (processNextItem exampleController
      (Add ''a/b/c'' NewRateLimitingQueue, [])))) = [''a/b/c''] \<and>
   queue (timersFire (fst (snd (processNextItem exampleController
      (Add ''a/b/c'' NewRateLimitingQueue, []))))) = [''a/b/c'']"
  by (simp add: SplitMetaNamespaceKey_def processItem_def queue_defs)

subsection \<open>The delete path\<close>

lemma newEvents_append [simp]: "newEvents w (w @ es) = es"
  by (simp add: newEvents_def)

lemma runDeletes_result:
  "fst (runDeletes c rqs w) = None \<or> notNilNorNotFound (fst (runDeletes c rqs w))"
  by (induction rqs arbitrary: w) (auto simp: request_def Let_def)

lemma runDeletes_tolerant [simp]:
  "(if notNilNorNotFound (fst (runDeletes c rqs w)) then runDeletes c rqs w
    else (None, snd (runDeletes c rqs w))) = runDeletes c rqs w"
  using runDeletes_result [of c rqs w] by (cases "runDeletes c rqs w") auto

lemma deleteAutoscale_runDeletes:
  "deleteAutoscale c ns name w =
     runDeletes c ((if smclient c then [DeleteServiceMonitor name ns] else []) @
                   [DeleteAutoscale name ns]) w"
  by (simp add: deleteAutoscale_def request_def Let_def notNilNorNotFound_def)

lemma deleteK8sResources_runDeletes:
  "deleteK8sResources c ns name w =
     (case request c (CronJobsGet ns (''trigger-'' @ name)) w of
        (err0, w0) \<Rightarrow>
          runDeletes c
            ((if err0 = None then [CronJobsDelete ns (''trigger-'' @ name)] else []) @
             [DeploymentsDelete ns name, ServicesDelete ns name, ConfigMapsDelete ns name] @
             (if smclient c then [DeleteServiceMonitor name ns] else []) @
             [DeleteAutoscale name ns]) w0)"
  unfolding deleteK8sResources_def deleteAutoscale_runDeletes
  by (simp add: case_prod_unfold Let_def notNilNorNotFound_def)


lemma runDeletes_trace:
  "\<exists>es. snd (runDeletes c rqs w) = w @ es \<and> prefix (map fst es) rqs \<and>
        (rqs \<noteq> [] \<longrightarrow> es \<noteq> [] \<and> hd es = (hd rqs, clientset c w (hd rqs))) \<and>
        (\<forall>rq e. (rq, Some e) \<in> set es \<and> \<not> IsNotFound e \<longrightarrow>
                  fst (runDeletes c rqs w) = Some e \<and> last es = (rq, Some e)) \<and>
        (\<forall>e. fst (runDeletes c rqs w) = Some e \<longrightarrow>
                  \<not> IsNotFound e \<and> es \<noteq> [] \<and> snd (last es) = Some e)"
proof (induction rqs arbitrary: w)
  case Nil
  then show ?case by simp
next
  case (Cons rq rqs)
  define r where "r = clientset c w rq"
  show ?case
  proof (cases "notNilNorNotFound r")
    case True
    then have "runDeletes c (rq # rqs) w = (r, w @ [(rq, r)])"
      by (simp add: request_def r_def Let_def)
    with True show ?thesis
      by (auto simp: notNilNorNotFound_def r_def split: option.splits)
  next
    case False
    obtain es where es: "snd (runDeletes c rqs (w @ [(rq, r)])) = (w @ [(rq, r)]) @ es"
      "prefix (map fst es) rqs"
      "\<forall>rq' e. (rq', Some e) \<in> set es \<and> \<not> IsNotFound e \<longrightarrow>
                  fst (runDeletes c rqs (w @ [(rq, r)])) = Some e \<and> last es = (rq', Some e)"
      "\<forall>e. fst (runDeletes c rqs (w @ [(rq, r)])) = Some e \<longrightarrow>
                  \<not> IsNotFound e \<and> es \<noteq> [] \<and> snd (last es) = Some e"
      using Cons.IH [of "w @ [(rq, r)]"] by blast
    from False have run: "runDeletes c (rq # rqs) w = runDeletes c rqs (w @ [(rq, r)])"
      by (simp add: request_def r_def Let_def)
    have "snd (runDeletes c (rq # rqs) w) = w @ ((rq, r) # es)"
      by (simp add: run es(1) del: runDeletes.simps)
    moreover have "prefix (map fst ((rq, r) # es)) (rq # rqs)"
      using es(2) by simp
    moreover have "hd ((rq, r) # es) = (hd (rq # rqs), clientset c w (hd (rq # rqs)))"
      by (simp add: r_def)
    moreover have "\<forall>rq' e. (rq', Some e) \<in> set ((rq, r) # es) \<and> \<not> IsNotFound e \<longrightarrow>
        fst (runDeletes c (rq # rqs) w) = Some e \<and> last ((rq, r) # es) = (rq', Some e)"
      using es(3) False by (auto simp: run notNilNorNotFound_def simp del: runDeletes.simps)
    moreover have "\<forall>e. fst (runDeletes c (rq # rqs) w) = Some e \<longrightarrow>
        \<not> IsNotFound e \<and> (rq, r) # es \<noteq> [] \<and> snd (last ((rq, r) # es)) = Some e"
      using es(4) by (auto simp: run simp del: runDeletes.simps)
    ultimately show ?thesis by blast
  qed
qed


lemma runDeletes_all_tolerated:
  assumes "\<forall>rq\<in>set rqs. \<forall>w'. \<not> notNilNorNotFound (clientset c w' rq)"
  shows "\<exists>es. runDeletes c rqs w = (None, w @ es) \<and> map fst es = rqs"
  using assms
proof (induction rqs arbitrary: w)
  case Nil
  then show ?case by simp
next
  case (Cons rq rqs)
  then obtain es where
    "runDeletes c rqs (w @ [(rq, clientset c w rq)]) = (None, (w @ [(rq, clientset c w rq)]) @ es)"
    "map fst es = rqs"
    by (metis list.set_intros(2))
  with Cons.prems show ?case
    by (simp add: request_def Let_def)
qed



lemma managed_tolerated:
  assumes nf: "\<forall>w' rq. rq \<in> set (managedResourceRequests ns name) \<longrightarrow>
        (\<exists>e. clientset c w' rq = Some e \<and> IsNotFound e)"
    and rq: "rq \<in> set (managedResourceRequests ns name)"
  shows "clientset c w' rq \<noteq> None \<and> \<not> notNilNorNotFound (clientset c w' rq)"
proof -
  from nf rq obtain e where "clientset c w' rq = Some e" "IsNotFound e" by blast
  then show ?thesis by (simp add: notNilNorNotFound_def)
qed

text \<open>
  C5. If every request about the function's objects (the cron-job probe and each delete)
  answers "not found", \<open>deleteK8sResources\<close> returns nil, having probed the cron job and
  tried to delete the deployment, the service, the config map, the service monitor (when
  its client is configured) and the autoscaler. And whenever a delete request of the path
  returns an error that is not "not found", that request is the last one sent and its
  error is the result.
\<close>

theorem deleteK8sResources_idempotent:
  "((\<forall>w' rq. rq \<in> set (managedResourceRequests ns name) \<longrightarrow>
        (\<exists>e. clientset c w' rq = Some e \<and> IsNotFound e)) \<longrightarrow>
      fst (deleteK8sResources c ns name w) = None \<and>
      map fst (newEvents w (snd (deleteK8sResources c ns name w))) =
        [CronJobsGet ns (''trigger-'' @ name), DeploymentsDelete ns name,
         ServicesDelete ns name, ConfigMapsDelete ns name] @
        (if smclient c then [DeleteServiceMonitor name ns] else []) @
        [DeleteAutoscale name ns]) \<and>
   ((rq, Some e) \<in> set (newEvents w (snd (deleteK8sResources c ns name w))) \<and>
      isDeleteCall rq \<and> \<not> IsNotFound e \<longrightarrow>
      fst (deleteK8sResources c ns name w) = Some e \<and>
      last (snd (deleteK8sResources c ns name w)) = (rq, Some e))"
proof -
  define r0 where "r0 = clientset c w (CronJobsGet ns (''trigger-'' @ name))"
  define rest where "rest = [DeploymentsDelete ns name, ServicesDelete ns name,
      ConfigMapsDelete ns name] @ (if smclient c then [DeleteServiceMonitor name ns] else []) @
      [DeleteAutoscale name ns]"
  define rqs where "rqs = (if r0 = None then [CronJobsDelete ns (''trigger-'' @ name)] else []) @ rest"
  define w0 where "w0 = w @ [(CronJobsGet ns (''trigger-'' @ name), r0)]"
  have d: "deleteK8sResources c ns name w = runDeletes c rqs w0"
    unfolding rqs_def rest_def w0_def r0_def
    by (simp add: deleteK8sResources_runDeletes request_def Let_def del: runDeletes.simps)
  have sub: "set rest \<subseteq> set (managedResourceRequests ns name)"
    by (auto simp: rest_def managedResourceRequests_def)
  have first: "fst (deleteK8sResources c ns name w) = None \<and>
      map fst (newEvents w (snd (deleteK8sResources c ns name w))) =
        CronJobsGet ns (''trigger-'' @ name) # rest"
    if nf: "\<forall>w' rq. rq \<in> set (managedResourceRequests ns name) \<longrightarrow>
        (\<exists>e. clientset c w' rq = Some e \<and> IsNotFound e)"
  proof -
    have "CronJobsGet ns (''trigger-'' @ name) \<in> set (managedResourceRequests ns name)"
      by (simp add: managedResourceRequests_def)
    from managed_tolerated [OF nf this, of w] have r0: "r0 \<noteq> None"
      by (simp add: r0_def)
    have "\<forall>rq\<in>set rest. \<forall>w'. \<not> notNilNorNotFound (clientset c w' rq)"
      using managed_tolerated [OF nf] sub by blast
    from runDeletes_all_tolerated [OF this, of w0]
    obtain es where es: "runDeletes c rest w0 = (None, w0 @ es)" "map fst es = rest"
      by blast
    from r0 have "rqs = rest" by (simp add: rqs_def)
    then show ?thesis
      by (simp add: d es, simp add: w0_def es(2))
  qed
  have second: "fst (deleteK8sResources c ns name w) = Some e \<and>
      last (snd (deleteK8sResources c ns name w)) = (rq, Some e)"
    if a: "(rq, Some e) \<in> set (newEvents w (snd (deleteK8sResources c ns name w))) \<and>
      isDeleteCall rq \<and> \<not> IsNotFound e"
  proof -
    obtain es where es: "snd (runDeletes c rqs w0) = w0 @ es"
      "\<forall>rq e. (rq, Some e) \<in> set es \<and> \<not> IsNotFound e \<longrightarrow>
                  fst (runDeletes c rqs w0) = Some e \<and> last es = (rq, Some e)"
      using runDeletes_trace [of c rqs w0] by blast
    have new: "newEvents w (snd (deleteK8sResources c ns name w)) =
        (CronJobsGet ns (''trigger-'' @ name), r0) # es"
      by (simp add: d es(1), simp add: w0_def)
    from a have "(rq, Some e) \<in> set es"
      by (auto simp: new)
    with es(2) a have "fst (runDeletes c rqs w0) = Some e \<and> last es = (rq, Some e) \<and> es \<noteq> []"
      by auto
    then show ?thesis
      by (simp add: d es(1))
  qed
  from first second show ?thesis
    by (simp add: rest_def)
qed

theorem deleteK8sResources_idempotent_witness:
  "fst (deleteK8sResources absentController ''default'' ''hello'' []) = None \<and>
   map fst (snd (deleteK8sResources absentController ''default'' ''hello'' [])) =
     [CronJobsGet ''default'' ''trigger-hello'', DeploymentsDelete ''default'' ''hello'',
      ServicesDelete ''default'' ''hello'', ConfigMapsDelete ''default'' ''hello'',
      DeleteServiceMonitor ''hello'' ''default'', DeleteAutoscale ''hello'' ''default''] \<and>
   fst (deleteK8sResources failingController ''default'' ''hello'' []) = Some (APIError ''timeout'') \<and>
   last (snd (deleteK8sResources failingController ''default'' ''hello'' [])) =
     (DeploymentsDelete ''default'' ''hello'', Some (APIError ''timeout''))"
proof -
  have absent: "\<forall>w' rq. rq \<in> set (managedResourceRequests ''default'' ''hello'') \<longrightarrow>
      (\<exists>e. clientset absentController w' rq = Some e \<and> IsNotFound e)"
    by (simp add: absentController_def exampleController_def)
  have failed: "(DeploymentsDelete ''default'' ''hello'', Some (APIError ''timeout'')) \<in>
      set (newEvents [] (snd (deleteK8sResources failingController ''default'' ''hello'' []))) \<and>
      isDeleteCall (DeploymentsDelete ''default'' ''hello'') \<and> \<not> IsNotFound (APIError ''timeout'')"
    by (simp add: delete_defs failingController_def exampleController_def newEvents_def)
  from deleteK8sResources_idempotent [of "''default''" "''hello''" absentController "[]"] absent
    deleteK8sResources_idempotent [of "''default''" "''hello''" failingController "[]"
      "DeploymentsDelete ''default'' ''hello''" "APIError ''timeout''"] failed
  show ?thesis
    by (simp add: newEvents_def absentController_def exampleController_def)
qed

text \<open>
  C10. In \<open>deleteK8sResources\<close> the request to delete the cron job \<open>trigger-<name>\<close> is sent
  exactly when the preliminary get of that name returned no error. When the get returns an
  error, whatever it is, the path goes on with the deletion of the deployment, and the
  get's error is not the result: an error returned by the path is never "not found" and is
  the error of the last request sent, which is a delete request.
\<close>

theorem cronjob_delete_follows_get:
  "(CronJobsDelete ns (''trigger-'' @ name) \<in>
        fst ` set (newEvents w (snd (deleteK8sResources c ns name w))) \<longleftrightarrow>
      clientset c w (CronJobsGet ns (''trigger-'' @ name)) = None) \<and>
   (clientset c w (CronJobsGet ns (''trigger-'' @ name)) = Some e \<longrightarrow>
      take 2 (newEvents w (snd (deleteK8sResources c ns name w))) =
        [(CronJobsGet ns (''trigger-'' @ name), Some e),
         (DeploymentsDelete ns name,
          clientset c (w @ [(CronJobsGet ns (''trigger-'' @ name), Some e)])
            (DeploymentsDelete ns name))] \<and>
      (\<forall>e'. fst (deleteK8sResources c ns name w) = Some e' \<longrightarrow>
         \<not> IsNotFound e' \<and>
         (\<exists>rq. isDeleteCall rq \<and> last (snd (deleteK8sResources c ns name w)) = (rq, Some e'))))"
proof -
  define r0 where "r0 = clientset c w (CronJobsGet ns (''trigger-'' @ name))"
  define rest where "rest = [DeploymentsDelete ns name, ServicesDelete ns name,
      ConfigMapsDelete ns name] @ (if smclient c then [DeleteServiceMonitor name ns] else []) @
      [DeleteAutoscale name ns]"
  define rqs where "rqs = (if r0 = None then [CronJobsDelete ns (''trigger-'' @ name)] else []) @ rest"
  define w0 where "w0 = w @ [(CronJobsGet ns (''trigger-'' @ name), r0)]"
  have d: "deleteK8sResources c ns name w = runDeletes c rqs w0"
    unfolding rqs_def rest_def w0_def r0_def
    by (simp add: deleteK8sResources_runDeletes request_def Let_def del: runDeletes.simps)
  have rqs: "rqs \<noteq> []" "\<forall>rq\<in>set rqs. isDeleteCall rq"
    "hd rqs = (if r0 = None then CronJobsDelete ns (''trigger-'' @ name) else DeploymentsDelete ns name)"
    "r0 \<noteq> None \<longrightarrow> CronJobsDelete ns (''trigger-'' @ name) \<notin> set rqs"
    by (auto simp: rqs_def rest_def)
  obtain es where es: "snd (runDeletes c rqs w0) = w0 @ es" "prefix (map fst es) rqs"
    "es \<noteq> []" "hd es = (hd rqs, clientset c w0 (hd rqs))"
    "\<forall>e. fst (runDeletes c rqs w0) = Some e \<longrightarrow>
                  \<not> IsNotFound e \<and> snd (last es) = Some e"
    using runDeletes_trace [of c rqs w0] rqs(1) by blast
  have new: "newEvents w (snd (deleteK8sResources c ns name w)) =
      (CronJobsGet ns (''trigger-'' @ name), r0) # es"
    by (simp add: d es(1), simp add: w0_def)
  have sub: "fst ` set es \<subseteq> set rqs"
    using set_mono_prefix [OF es(2)] by simp
  have "fst (last es) \<in> set rqs"
    using sub es(3) by (meson image_eqI last_in_set subsetD)
  with rqs(2) have lastdel: "isDeleteCall (fst (last es))" by blast
  have hd_in: "hd es \<in> set es" using es(3) by simp
  have iff: "CronJobsDelete ns (''trigger-'' @ name) \<in> fst ` set es \<longleftrightarrow> r0 = None"
  proof
    assume "CronJobsDelete ns (''trigger-'' @ name) \<in> fst ` set es"
    with sub rqs(4) show "r0 = None" by blast
  next
    assume "r0 = None"
    with es(4) rqs(3) have "fst (hd es) = CronJobsDelete ns (''trigger-'' @ name)" by simp
    with hd_in show "CronJobsDelete ns (''trigger-'' @ name) \<in> fst ` set es"
      by (metis image_eqI)
  qed
  have part1: "CronJobsDelete ns (''trigger-'' @ name) \<in>
        fst ` set (newEvents w (snd (deleteK8sResources c ns name w))) \<longleftrightarrow> r0 = None"
    using iff by (simp add: new)
  have part2: "take 2 (newEvents w (snd (deleteK8sResources c ns name w))) =
        [(CronJobsGet ns (''trigger-'' @ name), Some e),
         (DeploymentsDelete ns name,
          clientset c (w @ [(CronJobsGet ns (''trigger-'' @ name), Some e)])
            (DeploymentsDelete ns name))]" if "r0 = Some e"
  proof -
    from es(3) obtain x xs where "es = x # xs" by (cases es) auto
    with es(4) rqs(3) that show ?thesis
      by (simp add: new w0_def)
  qed
  have part3: "\<not> IsNotFound e' \<and>
         (\<exists>rq. isDeleteCall rq \<and> last (snd (deleteK8sResources c ns name w)) = (rq, Some e'))"
    if "fst (deleteK8sResources c ns name w) = Some e'" for e'
  proof -
    from that es(5) have "\<not> IsNotFound e'" "snd (last es) = Some e'"
      by (simp_all add: d)
    moreover have "last (snd (deleteK8sResources c ns name w)) = last es"
      using es(3) by (simp add: d es(1))
    ultimately show ?thesis
      using lastdel by (metis prod.collapse)
  qed
  from part1 part2 part3 show ?thesis
    unfolding r0_def by blast
qed

theorem cronjob_delete_follows_get_witness:
  "CronJobsDelete ''default'' ''trigger-hello'' \<in>
      fst ` set (snd (deleteK8sResources exampleController ''default'' ''hello'' [])) \<and>
   CronJobsDelete ''default'' ''trigger-hello'' \<notin>
      fst ` set (snd (deleteK8sResources failingController ''default'' ''hello'' [])) \<and>
   take 2 (snd (deleteK8sResources absentController ''default'' ''hello'' [])) =
     [(CronJobsGet ''default'' ''trigger-hello'', Some (NotFound ''not found'')),
      (DeploymentsDelete ''default'' ''hello'', Some (NotFound ''not found''))] \<and>
   fst (deleteK8sResources failingController ''default'' ''hello'' []) = Some (APIError ''timeout'') \<and>
   last (snd (deleteK8sResources failingController ''default'' ''hello'' [])) =
     (DeploymentsDelete ''default'' ''hello'', Some (APIError ''timeout''))"
proof -
  have ok: "clientset exampleController [] (CronJobsGet ''default'' (''trigger-'' @ ''hello'')) = None"
    by (simp add: exampleController_def)
  have bad: "clientset failingController [] (CronJobsGet ''default'' (''trigger-'' @ ''hello'')) =
      Some (APIError ''timeout'')"
    by (simp add: failingController_def exampleController_def)
  have gone: "clientset absentController [] (CronJobsGet ''default'' (''trigger-'' @ ''hello'')) =
      Some (NotFound ''not found'')"
    by (simp add: absentController_def exampleController_def)
  have res: "fst (deleteK8sResources failingController ''default'' ''hello'' []) =
      Some (APIError ''timeout'')"
    by (simp add: delete_defs failingController_def exampleController_def)
  from cronjob_delete_follows_get [of "''default''" "''hello''" "[]" exampleController] ok
    cronjob_delete_follows_get [of "''default''" "''hello''" "[]" failingController "APIError ''timeout''"] bad res
    cronjob_delete_follows_get [of "''default''" "''hello''" "[]" absentController "NotFound ''not found''"] gone
  show ?thesis
    by (simp add: newEvents_def absentController_def exampleController_def
          failingController_def delete_defs)
qed

subsection \<open>The ensure path\<close>

lemma ensureScheduled_shape:
  "\<exists>es. snd (ensureScheduled c f oref w) = w @ es \<and>
        scheduledStage f oref (fst (ensureScheduled c f oref w)) es"
  by (auto simp: ensureScheduled_def getResouceGroupVersion_def request_def Let_def
        scheduledStage_def split: sum.splits)

lemma ensureAutoscale_shape:
  "\<exists>es. snd (snd (ensureAutoscale c f oref w)) = w @ es \<and>
        autoscaleStage c f oref (fst (ensureAutoscale c f oref w))
          (fst (snd (ensureAutoscale c f oref w))) es"
proof (cases "hpa_Name (fn_HorizontalPodAutoscaler f) \<noteq> []
         \<and> hpa_ScaleTargetRef_Name (fn_HorizontalPodAutoscaler f) \<noteq> []")
  case True
  then show ?thesis
    by (auto simp: ensureAutoscale_def autoscaleStage_def request_def Let_def
          split: list.splits option.splits)
next
  case False
  define rqs where "rqs = (if smclient c then [DeleteServiceMonitor (fn_Name f) (fn_Namespace f)] else []) @
                   [DeleteAutoscale (fn_Name f) (fn_Namespace f)]"
  have da: "deleteAutoscale c (fn_Namespace f) (fn_Name f) w = runDeletes c rqs w"
    by (simp add: deleteAutoscale_runDeletes rqs_def del: runDeletes.simps)
  obtain es where es: "snd (runDeletes c rqs w) = w @ es" "prefix (map fst es) rqs"
    using runDeletes_trace [of c rqs w] by blast
  have "fst ` set es \<subseteq> set rqs"
    using set_mono_prefix [OF es(2)] by simp
  then have sub: "fst ` set es \<subseteq> {DeleteServiceMonitor (fn_Name f) (fn_Namespace f),
                             DeleteAutoscale (fn_Name f) (fn_Namespace f)}"
    by (auto simp: rqs_def split: if_splits)
  obtain r w' where rw: "runDeletes c rqs w = (r, w')" by (cases "runDeletes c rqs w") auto
  have r: "r = None \<or> notNilNorNotFound r"
    using runDeletes_result [of c rqs w] by (simp add: rw)
  have "ensureAutoscale c f oref w = (Returns r, f, w')"
    using False r by (auto simp: ensureAutoscale_def da rw)
  with False r sub es(1) rw show ?thesis
    by (auto simp: autoscaleStage_def)
qed

lemma ensureObjects_shape:
  "\<exists>r1 r2 r3 r4 es4 res5 f5 es5.
      scheduledStage f oref r4 es4 \<and> autoscaleStage c f oref res5 f5 es5 \<and>
      ensureObjects c f oref w =
        (if r1 \<noteq> None then (Returns r1, f, w @ [(EnsureFuncConfigMap f oref, r1)])
         else if r2 \<noteq> None
         then (Returns r2, f, w @ [(EnsureFuncConfigMap f oref, None), (EnsureFuncService f oref, r2)])
         else if r3 \<noteq> None
         then (Returns r3, f, w @ [(EnsureFuncConfigMap f oref, None), (EnsureFuncService f oref, None),
                                   (EnsureFuncDeployment f oref, r3)])
         else if r4 \<noteq> None
         then (Returns r4, f, w @ [(EnsureFuncConfigMap f oref, None), (EnsureFuncService f oref, None),
                                   (EnsureFuncDeployment f oref, None)] @ es4)
         else (res5, f5, w @ [(EnsureFuncConfigMap f oref, None), (EnsureFuncService f oref, None),
                                   (EnsureFuncDeployment f oref, None)] @ es4 @ es5))"
proof -
  define r1 where "r1 = clientset c w (EnsureFuncConfigMap f oref)"
  define w1 where "w1 = w @ [(EnsureFuncConfigMap f oref, r1)]"
  define r2 where "r2 = clientset c w1 (EnsureFuncService f oref)"
  define w2 where "w2 = w1 @ [(EnsureFuncService f oref, r2)]"
  define r3 where "r3 = clientset c w2 (EnsureFuncDeployment f oref)"
  define w3 where "w3 = w2 @ [(EnsureFuncDeployment f oref, r3)]"
  define r4 where "r4 = fst (ensureScheduled c f oref w3)"
  obtain es4 where es4: "snd (ensureScheduled c f oref w3) = w3 @ es4" "scheduledStage f oref r4 es4"
    using ensureScheduled_shape [of c f oref w3] r4_def by blast
  define w4 where "w4 = w3 @ es4"
  define res5 where "res5 = fst (ensureAutoscale c f oref w4)"
  define f5 where "f5 = fst (snd (ensureAutoscale c f oref w4))"
  obtain es5 where es5: "snd (snd (ensureAutoscale c f oref w4)) = w4 @ es5"
    "autoscaleStage c f oref res5 f5 es5"
    using ensureAutoscale_shape [of c f oref w4] res5_def f5_def by blast
  have q1: "request c (EnsureFuncConfigMap f oref) w = (r1, w1)"
    by (simp add: request_def Let_def r1_def w1_def)
  have q2: "request c (EnsureFuncService f oref) w1 = (r2, w2)"
    by (simp add: request_def Let_def r2_def w2_def)
  have q3: "request c (EnsureFuncDeployment f oref) w2 = (r3, w3)"
    by (simp add: request_def Let_def r3_def w3_def)
  have q4: "ensureScheduled c f oref w3 = (r4, w4)"
    by (simp add: r4_def w4_def es4(1) [symmetric])
  have q5: "ensureAutoscale c f oref w4 = (res5, f5, w4 @ es5)"
    by (simp add: res5_def f5_def es5(1) [symmetric])
  have "ensureObjects c f oref w =
        (if r1 \<noteq> None then (Returns r1, f, w1)
         else if r2 \<noteq> None then (Returns r2, f, w2)
         else if r3 \<noteq> None then (Returns r3, f, w3)
         else if r4 \<noteq> None then (Returns r4, f, w4)
         else (res5, f5, w4 @ es5))"
    by (auto simp: ensureObjects_def q1 q2 q3 q4 q5)
  then have "ensureObjects c f oref w =
        (if r1 \<noteq> None then (Returns r1, f, w @ [(EnsureFuncConfigMap f oref, r1)])
         else if r2 \<noteq> None
         then (Returns r2, f, w @ [(EnsureFuncConfigMap f oref, None), (EnsureFuncService f oref, r2)])
         else if r3 \<noteq> None
         then (Returns r3, f, w @ [(EnsureFuncConfigMap f oref, None), (EnsureFuncService f oref, None),
                                   (EnsureFuncDeployment f oref, r3)])
         else if r4 \<noteq> None
         then (Returns r4, f, w @ [(EnsureFuncConfigMap f oref, None), (EnsureFuncService f oref, None),
                                   (EnsureFuncDeployment f oref, None)] @ es4)
         else (res5, f5, w @ [(EnsureFuncConfigMap f oref, None), (EnsureFuncService f oref, None),
                                   (EnsureFuncDeployment f oref, None)] @ es4 @ es5))"
    by (auto simp: w1_def w2_def w3_def w4_def)
  with es4(2) es5(2) show ?thesis by blast
qed


lemma ensureObjects_calls:
  "\<exists>es. snd (snd (ensureObjects c f oref w)) = w @ es \<and>
     fst (ensureObjects c f oref w) \<noteq> Blocks \<and>
     fn_Labels (fst (snd (ensureObjects c f oref w))) = fn_Labels f \<and>
     fn_Name (fst (snd (ensureObjects c f oref w))) = fn_Name f \<and>
     (\<forall>rq r. (rq, r) \<in> set es \<longrightarrow>
        (isEnsureCall rq \<or> rq = ServerResources \<or>
         rq = DeleteServiceMonitor (fn_Name f) (fn_Namespace f) \<or>
         rq = DeleteAutoscale (fn_Name f) (fn_Namespace f)) \<and>
        (\<forall>f'. callFunction rq = Some f' \<longrightarrow>
           fn_Labels f' = fn_Labels f \<and> fn_Name f' = fn_Name f))"
proof -
  from ensureObjects_shape [of f oref c w]
  obtain r1 r2 r3 r4 es4 res5 f5 es5 where
    s4: "scheduledStage f oref r4 es4" and s5: "autoscaleStage c f oref res5 f5 es5" and
    eq: "ensureObjects c f oref w =
        (if r1 \<noteq> None then (Returns r1, f, w @ [(EnsureFuncConfigMap f oref, r1)])
         else if r2 \<noteq> None
         then (Returns r2, f, w @ [(EnsureFuncConfigMap f oref, None), (EnsureFuncService f oref, r2)])
         else if r3 \<noteq> None
         then (Returns r3, f, w @ [(EnsureFuncConfigMap f oref, None), (EnsureFuncService f oref, None),
                                   (EnsureFuncDeployment f oref, r3)])
         else if r4 \<noteq> None
         then (Returns r4, f, w @ [(EnsureFuncConfigMap f oref, None), (EnsureFuncService f oref, None),
                                   (EnsureFuncDeployment f oref, None)] @ es4)
         else (res5, f5, w @ [(EnsureFuncConfigMap f oref, None), (EnsureFuncService f oref, None),
                                   (EnsureFuncDeployment f oref, None)] @ es4 @ es5))"
    by blast
  have c4: "\<forall>rq r. (rq, r) \<in> set es4 \<longrightarrow>
        (isEnsureCall rq \<or> rq = ServerResources) \<and>
        (\<forall>f'. callFunction rq = Some f' \<longrightarrow> f' = f)"
    using s4 by (auto simp: scheduledStage_def)
  have c5: "res5 \<noteq> Blocks \<and> fn_Labels f5 = fn_Labels f \<and> fn_Name f5 = fn_Name f \<and>
      (\<forall>rq r. (rq, r) \<in> set es5 \<longrightarrow>
        (isEnsureCall rq \<or>
         rq = DeleteServiceMonitor (fn_Name f) (fn_Namespace f) \<or>
         rq = DeleteAutoscale (fn_Name f) (fn_Namespace f)) \<and>
        (\<forall>f'. callFunction rq = Some f' \<longrightarrow>
           fn_Labels f' = fn_Labels f \<and> fn_Name f' = fn_Name f))"
    using s5 by (auto simp: autoscaleStage_def split: if_splits list.splits)
  show ?thesis
    using c4 c5 by (auto simp: eq)
qed


lemma ensureObjects_cases:
  obtains r1 r2 r3 r4 es4 res5 f5 es5 where
    "scheduledStage f oref r4 es4" and "autoscaleStage c f oref res5 f5 es5" and
    "ensureObjects c f oref w =
        (if r1 \<noteq> None then (Returns r1, f, w @ [(EnsureFuncConfigMap f oref, r1)])
         else if r2 \<noteq> None
         then (Returns r2, f, w @ [(EnsureFuncConfigMap f oref, None), (EnsureFuncService f oref, r2)])
         else if r3 \<noteq> None
         then (Returns r3, f, w @ [(EnsureFuncConfigMap f oref, None), (EnsureFuncService f oref, None),
                                   (EnsureFuncDeployment f oref, r3)])
         else if r4 \<noteq> None
         then (Returns r4, f, w @ [(EnsureFuncConfigMap f oref, None), (EnsureFuncService f oref, None),
                                   (EnsureFuncDeployment f oref, None)] @ es4)
         else (res5, f5, w @ [(EnsureFuncConfigMap f oref, None), (EnsureFuncService f oref, None),
                                   (EnsureFuncDeployment f oref, None)] @ es4 @ es5))"
  using ensureObjects_shape [of f oref c w] by blast

lemma ensureObjects_abort:
  "\<exists>es. snd (snd (ensureObjects c f oref w)) = w @ es \<and>
     (\<forall>rq e. (rq, Some e) \<in> set es \<and> (isEnsureCall rq \<or> rq = ServerResources) \<longrightarrow>
        fst (ensureObjects c f oref w) = Returns (Some e) \<and> last es = (rq, Some e))"
proof (cases rule: ensureObjects_cases [of f oref c w])
  case (1 r1 r2 r3 r4 es4 res5 f5 es5)
  have a4: "\<forall>rq e. (rq, Some e) \<in> set es4 \<longrightarrow> r4 = Some e \<and> last es4 = (rq, Some e)"
    using 1(1) by (auto simp: scheduledStage_def)
  have a5: "\<forall>rq e. (rq, Some e) \<in> set es5 \<and> isEnsureCall rq \<longrightarrow>
      res5 = Returns (Some e) \<and> last es5 = (rq, Some e) \<and> es5 \<noteq> []"
    using 1(2) by (auto simp: autoscaleStage_def split: if_splits list.splits)
  have n5: "\<forall>rq r. (rq, r) \<in> set es5 \<longrightarrow> rq \<noteq> ServerResources"
    using 1(2) by (auto simp: autoscaleStage_def split: if_splits list.splits)
  show ?thesis
    using a4 a5 n5 by (auto simp: 1(3) last_append)
qed

lemma ensureObjects_order:
  "\<exists>es. snd (snd (ensureObjects c f oref w)) = w @ es \<and> es \<noteq> [] \<and>
     prefix (take 3 (map fst es))
       [EnsureFuncConfigMap f oref, EnsureFuncService f oref, EnsureFuncDeployment f oref] \<and>
     (length es < 3 \<longrightarrow> snd (last es) \<noteq> None) \<and>
     (\<forall>rq\<in>set (drop 3 (map fst es)). \<forall>g ow.
        rq \<noteq> EnsureFuncConfigMap g ow \<and> rq \<noteq> EnsureFuncService g ow \<and>
        rq \<noteq> EnsureFuncDeployment g ow)"
proof (cases rule: ensureObjects_cases [of f oref c w])
  case (1 r1 r2 r3 r4 es4 res5 f5 es5)
  have a4: "\<forall>rq\<in>fst ` set es4. \<forall>g ow.
        rq \<noteq> EnsureFuncConfigMap g ow \<and> rq \<noteq> EnsureFuncService g ow \<and>
        rq \<noteq> EnsureFuncDeployment g ow"
    using 1(1) by (auto simp: scheduledStage_def)
  have a5: "\<forall>rq\<in>fst ` set es5. \<forall>g ow.
        rq \<noteq> EnsureFuncConfigMap g ow \<and> rq \<noteq> EnsureFuncService g ow \<and>
        rq \<noteq> EnsureFuncDeployment g ow"
    using 1(2) by (auto simp: autoscaleStage_def split: if_splits list.splits)
  show ?thesis
    using a4 a5 by (auto simp: 1(3))
qed

lemma ensureObjects_empty_metrics:
  assumes "hpa_Name (fn_HorizontalPodAutoscaler f) \<noteq> []"
    and "hpa_ScaleTargetRef_Name (fn_HorizontalPodAutoscaler f) \<noteq> []"
    and "hpa_Metrics (fn_HorizontalPodAutoscaler f) = []"
  shows "\<exists>es. snd (snd (ensureObjects c f oref w)) = w @ es \<and>
     (fst (ensureObjects c f oref w) = Panics \<or>
      (\<exists>e. fst (ensureObjects c f oref w) = Returns (Some e))) \<and>
     (fn_Type f \<noteq> ''Scheduled'' \<and> (\<forall>rq e. (rq, Some e) \<notin> set es) \<longrightarrow>
        fst (ensureObjects c f oref w) = Panics \<and>
        es = [(EnsureFuncConfigMap f oref, None), (EnsureFuncService f oref, None),
              (EnsureFuncDeployment f oref, None)]) \<and>
     (\<forall>rq r. (rq, r) \<in> set es \<longrightarrow>
        (\<forall>g ns ow. rq \<noteq> CreateServiceMonitor g ns ow) \<and> (\<forall>h. rq \<noteq> CreateAutoscale h))"
proof (cases rule: ensureObjects_cases [of f oref c w])
  case (1 r1 r2 r3 r4 es4 res5 f5 es5)
  have a4: "\<forall>rq r. (rq, r) \<in> set es4 \<longrightarrow>
        (\<forall>g ns ow. rq \<noteq> CreateServiceMonitor g ns ow) \<and> (\<forall>h. rq \<noteq> CreateAutoscale h)"
    using 1(1) by (auto simp: scheduledStage_def)
  have b4: "fn_Type f \<noteq> ''Scheduled'' \<Longrightarrow> r4 = None \<and> es4 = []"
    using 1(1) by (auto simp: scheduledStage_def)
  have a5: "res5 = Panics \<and> es5 = []"
    using 1(2) assms by (simp add: autoscaleStage_def)
  show ?thesis
    using a4 a5 b4 by (auto simp: 1(3))
qed

lemma normalizeLabels_Returns:
  "\<exists>m. normalizeLabels f0 = Returns (f0\<lparr>fn_Labels := Some m\<rparr>) \<and>
       map_of m ''function'' = Some (fn_Name f0)"
  by (cases "fn_Labels f0") (auto simp: normalizeLabels_def Let_def update_conv')

lemma mergeConfiguredDeployment_Inr:
  "mergeConfiguredDeployment c f1 = Inr f \<Longrightarrow> f = f1\<lparr>fn_Deployment := fn_Deployment f\<rparr>"
  by (auto simp: mergeConfiguredDeployment_def split: option.splits sum.splits)

lemma ensureK8sResources_cases:
  obtains
    (merge_failed) m e where "normalizeLabels f0 = Returns (f0\<lparr>fn_Labels := Some m\<rparr>)"
      and "map_of m ''function'' = Some (fn_Name f0)"
      and "mergeConfiguredDeployment c (f0\<lparr>fn_Labels := Some m\<rparr>) = Inl e"
      and "ensureK8sResources c f0 w = (Returns (Some e), f0\<lparr>fn_Labels := Some m\<rparr>, w)"
  | (owner_failed) m d e where "normalizeLabels f0 = Returns (f0\<lparr>fn_Labels := Some m\<rparr>)"
      and "map_of m ''function'' = Some (fn_Name f0)"
      and "mergeConfiguredDeployment c (f0\<lparr>fn_Labels := Some m\<rparr>) =
             Inr (f0\<lparr>fn_Labels := Some m, fn_Deployment := d\<rparr>)"
      and "GetOwnerReference c (f0\<lparr>fn_Labels := Some m, fn_Deployment := d\<rparr>) = Inl e"
      and "ensureK8sResources c f0 w =
             (Returns (Some e), f0\<lparr>fn_Labels := Some m, fn_Deployment := d\<rparr>, w)"
  | (objects) m d oref where "normalizeLabels f0 = Returns (f0\<lparr>fn_Labels := Some m\<rparr>)"
      and "map_of m ''function'' = Some (fn_Name f0)"
      and "mergeConfiguredDeployment c (f0\<lparr>fn_Labels := Some m\<rparr>) =
             Inr (f0\<lparr>fn_Labels := Some m, fn_Deployment := d\<rparr>)"
      and "GetOwnerReference c (f0\<lparr>fn_Labels := Some m, fn_Deployment := d\<rparr>) = Inr oref"
      and "ensureK8sResources c f0 w =
             ensureObjects c (f0\<lparr>fn_Labels := Some m, fn_Deployment := d\<rparr>) oref w"
proof -
  obtain m where m: "normalizeLabels f0 = Returns (f0\<lparr>fn_Labels := Some m\<rparr>)"
    "map_of m ''function'' = Some (fn_Name f0)"
    using normalizeLabels_Returns by blast
  show ?thesis
  proof (cases "mergeConfiguredDeployment c (f0\<lparr>fn_Labels := Some m\<rparr>)")
    case (Inl e)
    with m show ?thesis
      by (intro merge_failed [of m e]) (simp_all add: ensureK8sResources_def)
  next
    case (Inr f)
    define d where "d = fn_Deployment f"
    from mergeConfiguredDeployment_Inr [OF Inr]
    have d: "f = f0\<lparr>fn_Labels := Some m, fn_Deployment := d\<rparr>"
      by (simp add: d_def)
    show ?thesis
    proof (cases "GetOwnerReference c f")
      case (Inl e)
      with m Inr d show ?thesis
        by (intro owner_failed [of m d e]) (simp_all add: ensureK8sResources_def)
    next
      case (Inr oref)
      with m \<open>mergeConfiguredDeployment c (f0\<lparr>fn_Labels := Some m\<rparr>) = Inr f\<close> d show ?thesis
        by (intro objects [of m d oref]) (simp_all add: ensureK8sResources_def)
    qed
  qed
qed

lemmas ensure_defs = ensureK8sResources_def ensureObjects_def ensureScheduled_def
  ensureAutoscale_def normalizeLabels_def mergeConfiguredDeployment_def
  getResouceGroupVersion_def

lemma newEvents_self [simp]: "newEvents w w = []"
  by (simp add: newEvents_def)

text \<open>
  C8. The label step of \<open>ensureK8sResources\<close> never panics and yields a Function with the same
  name whose labels hold \<open>function\<close> = that name, whatever the labels were (none at all
  included). The Function that \<open>ensureK8sResources\<close> leaves behind has this label, and so has
  the Function passed with every request the path sends.
\<close>

theorem ensureK8sResources_labels:
  "(\<exists>f1. normalizeLabels f0 = Returns f1 \<and> fn_Name f1 = fn_Name f0 \<and>
         label (fn_Labels f1) ''function'' = Some (fn_Name f0)) \<and>
   label (fn_Labels (fst (snd (ensureK8sResources c f0 w)))) ''function'' = Some (fn_Name f0) \<and>
   (\<forall>rq r f. (rq, r) \<in> set (newEvents w (snd (snd (ensureK8sResources c f0 w)))) \<and>
        callFunction rq = Some f \<longrightarrow>
      label (fn_Labels f) ''function'' = Some (fn_Name f0) \<and> fn_Name f = fn_Name f0)"
proof (cases rule: ensureK8sResources_cases [of f0 c w])
  case (merge_failed m e)
  then show ?thesis by (simp add: newEvents_def)
next
  case (owner_failed m d e)
  then show ?thesis by (simp add: newEvents_def)
next
  case (objects m d oref)
  let ?f = "f0\<lparr>fn_Labels := Some m, fn_Deployment := d\<rparr>"
  from ensureObjects_calls [of c ?f oref w]
  obtain es where es: "snd (snd (ensureObjects c ?f oref w)) = w @ es"
     "fn_Labels (fst (snd (ensureObjects c ?f oref w))) = fn_Labels ?f"
     "\<forall>rq r. (rq, r) \<in> set es \<longrightarrow>
        (\<forall>f'. callFunction rq = Some f' \<longrightarrow>
           fn_Labels f' = fn_Labels ?f \<and> fn_Name f' = fn_Name ?f)"
    by blast
  have 1: "\<exists>f1. normalizeLabels f0 = Returns f1 \<and> fn_Name f1 = fn_Name f0 \<and>
         label (fn_Labels f1) ''function'' = Some (fn_Name f0)"
    using objects(1,2) by simp
  have 2: "label (fn_Labels (fst (snd (ensureK8sResources c f0 w)))) ''function'' =
      Some (fn_Name f0)"
    using objects(2) by (simp add: objects(5) es(2))
  have 3: "label (fn_Labels f) ''function'' = Some (fn_Name f0) \<and> fn_Name f = fn_Name f0"
    if "(rq, r) \<in> set (newEvents w (snd (snd (ensureK8sResources c f0 w))))"
      and "callFunction rq = Some f" for rq r f
  proof -
    from that(1) have "(rq, r) \<in> set es" by (simp add: objects(5) es(1))
    with es(3) that(2) have "fn_Labels f = fn_Labels ?f \<and> fn_Name f = fn_Name ?f" by blast
    with objects(2) show ?thesis by simp
  qed
  from 1 2 3 show ?thesis by blast
qed

theorem ensureK8sResources_labels_witness:
  "normalizeLabels exampleFunction =
     Returns (exampleFunction\<lparr>fn_Labels := Some [(''function'', ''hello'')]\<rparr>) \<and>
   label (fn_Labels (fst (snd (ensureK8sResources exampleController exampleFunction []))))
     ''function'' = Some ''hello'' \<and>
   (EnsureFuncDeployment (exampleFunction\<lparr>fn_Labels := Some [(''function'', ''hello'')]\<rparr>)
        [\<lparr>or_APIVersion = ''kubeless.io/v1beta1'', or_Kind = ''Function'', or_Name = ''hello''\<rparr>], None)
      \<in> set (snd (snd (ensureK8sResources exampleController exampleFunction [])))"
proof -
  have n: "normalizeLabels exampleFunction =
     Returns (exampleFunction\<lparr>fn_Labels := Some [(''function'', ''hello'')]\<rparr>)"
    by (simp add: normalizeLabels_def exampleFunction_def)
  have e: "(EnsureFuncDeployment (exampleFunction\<lparr>fn_Labels := Some [(''function'', ''hello'')]\<rparr>)
        [\<lparr>or_APIVersion = ''kubeless.io/v1beta1'', or_Kind = ''Function'', or_Name = ''hello''\<rparr>], None)
      \<in> set (newEvents [] (snd (snd (ensureK8sResources exampleController exampleFunction []))))"
    by (simp add: ensure_defs delete_defs exampleController_def exampleFunction_def newEvents_def)
  from ensureK8sResources_labels [of exampleFunction exampleController "[]"] n e
  show ?thesis
    by (simp add: newEvents_def exampleFunction_def)
qed

text \<open>
  C6. In \<open>ensureK8sResources\<close>, a create-or-update request (or the discovery request) that
  returns an error is the last request sent, and its error is the result: no later step
  runs. Once the labels, the configured deployment and the owner reference are in place, the
  path sends at least one request, and its first three requests are, in this order, the
  config map, the service and the deployment of the function; it stops before the third
  only on an error, and none of the three is requested again later.
\<close>

theorem ensure_steps_in_order:
  "(\<forall>rq e. (rq, Some e) \<in> set (newEvents w (snd (snd (ensureK8sResources c f0 w)))) \<and>
        (isEnsureCall rq \<or> rq = ServerResources) \<longrightarrow>
      fst (ensureK8sResources c f0 w) = Returns (Some e) \<and>
      last (snd (snd (ensureK8sResources c f0 w))) = (rq, Some e)) \<and>
   (normalizeLabels f0 = Returns f1 \<and> mergeConfiguredDeployment c f1 = Inr f \<and>
      GetOwnerReference c f = Inr oref \<longrightarrow>
      (let es = newEvents w (snd (snd (ensureK8sResources c f0 w))) in
         es \<noteq> [] \<and>
         prefix (take 3 (map fst es))
           [EnsureFuncConfigMap f oref, EnsureFuncService f oref, EnsureFuncDeployment f oref] \<and>
         (length es < 3 \<longrightarrow> snd (last es) \<noteq> None) \<and>
         (\<forall>rq\<in>set (drop 3 (map fst es)). \<forall>g ow.
            rq \<noteq> EnsureFuncConfigMap g ow \<and> rq \<noteq> EnsureFuncService g ow \<and>
            rq \<noteq> EnsureFuncDeployment g ow)))"
proof (cases rule: ensureK8sResources_cases [of f0 c w])
  case (merge_failed m e)
  then show ?thesis by auto
next
  case (owner_failed m d e)
  then show ?thesis by auto
next
  case (objects m d oref')
  let ?f = "f0\<lparr>fn_Labels := Some m, fn_Deployment := d\<rparr>"
  from ensureObjects_abort [of c ?f oref' w]
  obtain es where es: "snd (snd (ensureObjects c ?f oref' w)) = w @ es"
    "\<forall>rq e. (rq, Some e) \<in> set es \<and> (isEnsureCall rq \<or> rq = ServerResources) \<longrightarrow>
        fst (ensureObjects c ?f oref' w) = Returns (Some e) \<and> last es = (rq, Some e)"
    by blast
  from ensureObjects_order [of c ?f oref' w]
  obtain es' where es': "snd (snd (ensureObjects c ?f oref' w)) = w @ es'" "es' \<noteq> []"
    "prefix (take 3 (map fst es'))
       [EnsureFuncConfigMap ?f oref', EnsureFuncService ?f oref', EnsureFuncDeployment ?f oref']"
    "length es' < 3 \<longrightarrow> snd (last es') \<noteq> None"
    "\<forall>rq\<in>set (drop 3 (map fst es')). \<forall>g ow.
        rq \<noteq> EnsureFuncConfigMap g ow \<and> rq \<noteq> EnsureFuncService g ow \<and>
        rq \<noteq> EnsureFuncDeployment g ow"
    by blast
  from es(1) es'(1) have same: "es' = es" by simp
  have new: "newEvents w (snd (snd (ensureK8sResources c f0 w))) = es"
    by (simp add: objects(5) es(1))
  have 1: "fst (ensureK8sResources c f0 w) = Returns (Some e) \<and>
      last (snd (snd (ensureK8sResources c f0 w))) = (rq, Some e)"
    if "(rq, Some e) \<in> set (newEvents w (snd (snd (ensureK8sResources c f0 w))))"
      and "isEnsureCall rq \<or> rq = ServerResources" for rq e
  proof -
    from that have "fst (ensureObjects c ?f oref' w) = Returns (Some e) \<and> last es = (rq, Some e)"
      using es(2) by (simp add: new)
    moreover from that(1) have "es \<noteq> []" by (auto simp: new)
    ultimately show ?thesis by (simp add: objects(5) es(1))
  qed
  have 2: "let es = newEvents w (snd (snd (ensureK8sResources c f0 w))) in
         es \<noteq> [] \<and>
         prefix (take 3 (map fst es))
           [EnsureFuncConfigMap f oref, EnsureFuncService f oref, EnsureFuncDeployment f oref] \<and>
         (length es < 3 \<longrightarrow> snd (last es) \<noteq> None) \<and>
         (\<forall>rq\<in>set (drop 3 (map fst es)). \<forall>g ow.
            rq \<noteq> EnsureFuncConfigMap g ow \<and> rq \<noteq> EnsureFuncService g ow \<and>
            rq \<noteq> EnsureFuncDeployment g ow)"
    if "normalizeLabels f0 = Returns f1 \<and> mergeConfiguredDeployment c f1 = Inr f \<and>
      GetOwnerReference c f = Inr oref"
  proof -
    from that objects(1,3,4) have "f = ?f" "oref = oref'" by auto
    with es' same show ?thesis by (simp add: new Let_def)
  qed
  from 1 2 show ?thesis by blast
qed


theorem ensure_steps_in_order_witness:
  "prefix (take 3 (map fst (newEvents []
       (snd (snd (ensureK8sResources exampleController exampleFunction []))))))
     [EnsureFuncConfigMap labelledExample exampleOwner,
      EnsureFuncService labelledExample exampleOwner,
      EnsureFuncDeployment labelledExample exampleOwner] \<and>
   map fst (snd (snd (ensureK8sResources exampleController exampleFunction []))) =
     [EnsureFuncConfigMap labelledExample exampleOwner,
      EnsureFuncService labelledExample exampleOwner,
      EnsureFuncDeployment labelledExample exampleOwner,
      DeleteServiceMonitor ''hello'' ''default'', DeleteAutoscale ''hello'' ''default''] \<and>
   snd (snd (ensureK8sResources serviceFailingController exampleFunction [])) =
     [(EnsureFuncConfigMap labelledExample exampleOwner, None),
      (EnsureFuncService labelledExample exampleOwner, Some (APIError ''denied''))] \<and>
   fst (ensureK8sResources serviceFailingController exampleFunction []) =
     Returns (Some (APIError ''denied''))"
proof -
  have n: "normalizeLabels exampleFunction = Returns labelledExample"
    by (simp add: normalizeLabels_def exampleFunction_def labelledExample_def)
  have m: "mergeConfiguredDeployment exampleController labelledExample = Inr labelledExample"
    by (simp add: mergeConfiguredDeployment_def exampleController_def)
  have g: "GetOwnerReference exampleController labelledExample = Inr exampleOwner"
    by (simp add: exampleController_def exampleOwner_def labelledExample_def
          exampleFunction_def)
  have t: "snd (snd (ensureK8sResources serviceFailingController exampleFunction [])) =
     [(EnsureFuncConfigMap labelledExample exampleOwner, None),
      (EnsureFuncService labelledExample exampleOwner, Some (APIError ''denied''))]"
    by (simp add: ensure_defs delete_defs serviceFailingController_def exampleController_def
          labelledExample_def exampleFunction_def exampleOwner_def)
  have t': "map fst (snd (snd (ensureK8sResources exampleController exampleFunction []))) =
     [EnsureFuncConfigMap labelledExample exampleOwner,
      EnsureFuncService labelledExample exampleOwner,
      EnsureFuncDeployment labelledExample exampleOwner,
      DeleteServiceMonitor ''hello'' ''default'', DeleteAutoscale ''hello'' ''default'']"
    by (simp add: ensure_defs delete_defs exampleController_def
          labelledExample_def exampleFunction_def exampleOwner_def)
  have e: "(EnsureFuncService labelledExample exampleOwner, Some (APIError ''denied'')) \<in>
      set (newEvents [] (snd (snd (ensureK8sResources serviceFailingController exampleFunction []))))"
    by (simp add: t newEvents_def)
  have i: "isEnsureCall (EnsureFuncService labelledExample exampleOwner)"
    by simp
  from ensure_steps_in_order [of "[]" serviceFailingController exampleFunction] e i
  have r: "fst (ensureK8sResources serviceFailingController exampleFunction []) =
     Returns (Some (APIError ''denied''))"
    by blast
  from ensure_steps_in_order [of "[]" exampleController exampleFunction labelledExample
      labelledExample exampleOwner] n m g
  have p: "prefix (take 3 (map fst (newEvents []
       (snd (snd (ensureK8sResources exampleController exampleFunction []))))))
     [EnsureFuncConfigMap labelledExample exampleOwner,
      EnsureFuncService labelledExample exampleOwner,
      EnsureFuncDeployment labelledExample exampleOwner]"
    by (simp add: Let_def)
  from p t' t r show ?thesis by blast
qed

text \<open>
  C2 (what the code does). When the autoscaler of the function names an object and a scale
  target and its metric list is empty, \<open>ensureK8sResources\<close> never returns nil: it returns an
  error of an earlier step or it panics at \<open>Metrics[0]\<close>. No request to create a service
  monitor or an autoscaler is sent. In particular, for a function that is not scheduled,
  when the preliminary steps succeed and no request returns an error, the call panics after
  the config map, the service and the deployment have been ensured.
\<close>

theorem ensure_empty_metrics_panics:
  assumes "hpa_Name (fn_HorizontalPodAutoscaler f0) \<noteq> []"
    and "hpa_ScaleTargetRef_Name (fn_HorizontalPodAutoscaler f0) \<noteq> []"
    and "hpa_Metrics (fn_HorizontalPodAutoscaler f0) = []"
  shows "(fst (ensureK8sResources c f0 w) = Panics \<or>
          (\<exists>e. fst (ensureK8sResources c f0 w) = Returns (Some e))) \<and>
     (\<forall>rq r. (rq, r) \<in> set (newEvents w (snd (snd (ensureK8sResources c f0 w)))) \<longrightarrow>
        (\<forall>g ns ow. rq \<noteq> CreateServiceMonitor g ns ow) \<and> (\<forall>h. rq \<noteq> CreateAutoscale h)) \<and>
     (fn_Type f0 \<noteq> ''Scheduled'' \<and>
      (\<forall>rq e. (rq, Some e) \<notin> set (newEvents w (snd (snd (ensureK8sResources c f0 w))))) \<and>
      normalizeLabels f0 = Returns f1 \<and> mergeConfiguredDeployment c f1 = Inr f \<and>
      GetOwnerReference c f = Inr oref \<longrightarrow>
        fst (ensureK8sResources c f0 w) = Panics \<and>
        newEvents w (snd (snd (ensureK8sResources c f0 w))) =
          [(EnsureFuncConfigMap f oref, None), (EnsureFuncService f oref, None),
           (EnsureFuncDeployment f oref, None)])"
proof (cases rule: ensureK8sResources_cases [of f0 c w])
  case (merge_failed m e)
  then show ?thesis by auto
next
  case (owner_failed m d e)
  then show ?thesis by auto
next
  case (objects m d oref')
  let ?f = "f0\<lparr>fn_Labels := Some m, fn_Deployment := d\<rparr>"
  from ensureObjects_empty_metrics [of ?f c oref' w] assms
  obtain es where es: "snd (snd (ensureObjects c ?f oref' w)) = w @ es"
    "fst (ensureObjects c ?f oref' w) = Panics \<or>
      (\<exists>e. fst (ensureObjects c ?f oref' w) = Returns (Some e))"
    "fn_Type ?f \<noteq> ''Scheduled'' \<and> (\<forall>rq e. (rq, Some e) \<notin> set es) \<longrightarrow>
        fst (ensureObjects c ?f oref' w) = Panics \<and>
        es = [(EnsureFuncConfigMap ?f oref', None), (EnsureFuncService ?f oref', None),
              (EnsureFuncDeployment ?f oref', None)]"
    "\<forall>rq r. (rq, r) \<in> set es \<longrightarrow>
        (\<forall>g ns ow. rq \<noteq> CreateServiceMonitor g ns ow) \<and> (\<forall>h. rq \<noteq> CreateAutoscale h)"
    by auto
  have new: "newEvents w (snd (snd (ensureK8sResources c f0 w))) = es"
    by (simp add: objects(5) es(1))
  have res: "fst (ensureK8sResources c f0 w) = fst (ensureObjects c ?f oref' w)"
    by (simp add: objects(5))
  have 3: "fst (ensureK8sResources c f0 w) = Panics \<and>
        newEvents w (snd (snd (ensureK8sResources c f0 w))) =
          [(EnsureFuncConfigMap f oref, None), (EnsureFuncService f oref, None),
           (EnsureFuncDeployment f oref, None)]"
    if "fn_Type f0 \<noteq> ''Scheduled''"
      "\<forall>rq e. (rq, Some e) \<notin> set (newEvents w (snd (snd (ensureK8sResources c f0 w))))"
      "normalizeLabels f0 = Returns f1" "mergeConfiguredDeployment c f1 = Inr f"
      "GetOwnerReference c f = Inr oref"
  proof -
    from that(3-5) objects(1,3,4) have "f = ?f" "oref = oref'" by auto
    with es(3) that(1,2) show ?thesis by (simp add: new res)
  qed
  from es(2,4) 3 show ?thesis
    unfolding new res by blast
qed

theorem ensure_empty_metrics_panics_witness:
  "fst (ensureK8sResources exampleController autoscaledFunction []) = Panics \<and>
   snd (snd (ensureK8sResources exampleController autoscaledFunction [])) =
     [(EnsureFuncConfigMap (autoscaledFunction\<lparr>fn_Labels := Some [(''function'', ''hello'')]\<rparr>)
         exampleOwner, None),
      (EnsureFuncService (autoscaledFunction\<lparr>fn_Labels := Some [(''function'', ''hello'')]\<rparr>)
         exampleOwner, None),
      (EnsureFuncDeployment (autoscaledFunction\<lparr>fn_Labels := Some [(''function'', ''hello'')]\<rparr>)
         exampleOwner, None)]"
proof -
  let ?f = "autoscaledFunction\<lparr>fn_Labels := Some [(''function'', ''hello'')]\<rparr>"
  have h: "hpa_Name (fn_HorizontalPodAutoscaler autoscaledFunction) \<noteq> []"
    "hpa_ScaleTargetRef_Name (fn_HorizontalPodAutoscaler autoscaledFunction) \<noteq> []"
    "hpa_Metrics (fn_HorizontalPodAutoscaler autoscaledFunction) = []"
    "fn_Type autoscaledFunction \<noteq> ''Scheduled''"
    by (simp_all add: autoscaledFunction_def exampleFunction_def)
  have n: "normalizeLabels autoscaledFunction = Returns ?f"
    by (simp add: normalizeLabels_def autoscaledFunction_def exampleFunction_def)
  have m: "mergeConfiguredDeployment exampleController ?f = Inr ?f"
    by (simp add: mergeConfiguredDeployment_def exampleController_def)
  have g: "GetOwnerReference exampleController ?f = Inr exampleOwner"
    by (simp add: exampleController_def exampleOwner_def autoscaledFunction_def
          exampleFunction_def)
  have t: "\<forall>rq e. (rq, Some e) \<notin>
      set (newEvents [] (snd (snd (ensureK8sResources exampleController autoscaledFunction []))))"
    by (simp add: ensure_defs delete_defs exampleController_def autoscaledFunction_def
          exampleFunction_def newEvents_def)
  from ensure_empty_metrics_panics [OF h(1-3), of exampleController "[]" ?f ?f exampleOwner]
    h(4) n m g t
  show ?thesis
    by (simp add: newEvents_def)
qed

subsection \<open>Processing one key\<close>

lemma deleteK8sResources_calls:
  "\<exists>r es. snd (deleteK8sResources c ns name w) =
       w @ (CronJobsGet ns (''trigger-'' @ name), r) # es \<and>
     (\<forall>rq\<in>fst ` set es. isDeleteCall rq)"
proof -
  define r0 where "r0 = clientset c w (CronJobsGet ns (''trigger-'' @ name))"
  define rqs where "rqs = (if r0 = None then [CronJobsDelete ns (''trigger-'' @ name)] else []) @
      [DeploymentsDelete ns name, ServicesDelete ns name,
      ConfigMapsDelete ns name] @ (if smclient c then [DeleteServiceMonitor name ns] else []) @
      [DeleteAutoscale name ns]"
  define w0 where "w0 = w @ [(CronJobsGet ns (''trigger-'' @ name), r0)]"
  have d: "deleteK8sResources c ns name w = runDeletes c rqs w0"
    unfolding rqs_def w0_def r0_def
    by (simp add: deleteK8sResources_runDeletes request_def Let_def del: runDeletes.simps)
  obtain es where es: "snd (runDeletes c rqs w0) = w0 @ es" "prefix (map fst es) rqs"
    using runDeletes_trace [of c rqs w0] by blast
  have "fst ` set es \<subseteq> set rqs"
    using set_mono_prefix [OF es(2)] by simp
  moreover have "\<forall>rq\<in>set rqs. isDeleteCall rq"
    by (auto simp: rqs_def)
  ultimately have "\<forall>rq\<in>fst ` set es. isDeleteCall rq" by blast
  moreover have "snd (deleteK8sResources c ns name w) =
       w @ (CronJobsGet ns (''trigger-'' @ name), r0) # es"
    by (simp add: d es(1), simp add: w0_def)
  ultimately show ?thesis by blast
qed

lemma ensureK8sResources_calls:
  "\<exists>es. snd (snd (ensureK8sResources c f0 w)) = w @ es \<and>
     fst (ensureK8sResources c f0 w) \<noteq> Blocks \<and>
     (\<forall>rq r. (rq, r) \<in> set es \<longrightarrow>
        isEnsureCall rq \<or> rq = ServerResources \<or>
        rq = DeleteServiceMonitor (fn_Name f0) (fn_Namespace f0) \<or>
        rq = DeleteAutoscale (fn_Name f0) (fn_Namespace f0))"
proof (cases rule: ensureK8sResources_cases [of f0 c w])
  case (merge_failed m e)
  then show ?thesis by simp
next
  case (owner_failed m d e)
  then show ?thesis by simp
next
  case (objects m d oref)
  from ensureObjects_calls [of c "f0\<lparr>fn_Labels := Some m, fn_Deployment := d\<rparr>" oref w]
  show ?thesis
    unfolding objects(5) by auto
qed

lemma delete_not_ensure: "isDeleteCall rq \<Longrightarrow> \<not> isEnsureCall rq \<and> rq \<noteq> ServerResources"
  by (cases rq) auto

text \<open>
  C4. For a key that splits into \<open>ns\<close> and \<open>name\<close>: when the cache does not hold the key,
  \<open>processItem\<close> does what \<open>deleteK8sResources\<close> does for \<open>ns\<close> and \<open>name\<close> and returns its
  error; when the cache holds a Function under the key, it does what \<open>ensureK8sResources\<close>
  does for that Function and returns its result; when the cache lookup fails, it sends
  nothing. The probe that opens the delete path is in the trace exactly when the key is
  absent, and a create-or-update request is in the trace only when the key is present.
\<close>

theorem processItem_dispatch:
  assumes "SplitMetaNamespaceKey key = Inr (ns, name)"
  shows
    "(indexer c key = Inr None \<longrightarrow>
        processItem c key w =
          (Returns (fst (deleteK8sResources c ns name w)), snd (deleteK8sResources c ns name w))) \<and>
     (indexer c key = Inr (Some f) \<longrightarrow>
        processItem c key w =
          (fst (ensureK8sResources c f w), snd (snd (ensureK8sResources c f w)))) \<and>
     (indexer c key = Inl e \<longrightarrow>
        processItem c key w = (Returns (Some (StoreFetchError key e)), w)) \<and>
     ((\<exists>r. (CronJobsGet ns (''trigger-'' @ name), r) \<in> set (newEvents w (snd (processItem c key w))))
        \<longleftrightarrow> indexer c key = Inr None) \<and>
     ((\<exists>rq r. (rq, r) \<in> set (newEvents w (snd (processItem c key w))) \<and>
              (isEnsureCall rq \<or> rq = ServerResources)) \<longrightarrow>
        (\<exists>g. indexer c key = Inr (Some g)))"
proof -
  have del: "processItem c key w =
          (Returns (fst (deleteK8sResources c ns name w)), snd (deleteK8sResources c ns name w))"
    if "indexer c key = Inr None"
    using assms that
    by (cases "deleteK8sResources c ns name w")
       (auto simp: processItem_def split: option.splits)
  have ens: "processItem c key w =
          (fst (ensureK8sResources c g w), snd (snd (ensureK8sResources c g w)))"
    if "indexer c key = Inr (Some g)" for g
    using assms that
    by (cases "ensureK8sResources c g w")
       (auto simp: processItem_def split: option.splits result.splits)
  have err: "processItem c key w = (Returns (Some (StoreFetchError key e')), w)"
    if "indexer c key = Inl e'" for e'
    using assms that by (simp add: processItem_def)
  obtain r0 es where dc: "snd (deleteK8sResources c ns name w) =
       w @ (CronJobsGet ns (''trigger-'' @ name), r0) # es" "\<forall>rq\<in>fst ` set es. isDeleteCall rq"
    using deleteK8sResources_calls by blast
  have ec: "\<exists>es. snd (snd (ensureK8sResources c g w)) = w @ es \<and>
     (\<forall>rq r. (rq, r) \<in> set es \<longrightarrow>
        isEnsureCall rq \<or> rq = ServerResources \<or>
        rq = DeleteServiceMonitor (fn_Name g) (fn_Namespace g) \<or>
        rq = DeleteAutoscale (fn_Name g) (fn_Namespace g))" for g
    using ensureK8sResources_calls [of c g w] by blast
  have probe: "(\<exists>r. (CronJobsGet ns (''trigger-'' @ name), r) \<in>
        set (newEvents w (snd (processItem c key w)))) \<longleftrightarrow> indexer c key = Inr None"
  proof (cases "indexer c key")
    case (Inl e')
    then show ?thesis by (simp add: err)
  next
    case (Inr found)
    show ?thesis
    proof (cases found)
      case None
      with Inr show ?thesis by (auto simp: del dc(1))
    next
      case (Some g)
      from ec [of g] obtain es' where "snd (snd (ensureK8sResources c g w)) = w @ es'"
        "\<forall>rq r. (rq, r) \<in> set es' \<longrightarrow>
        isEnsureCall rq \<or> rq = ServerResources \<or>
        rq = DeleteServiceMonitor (fn_Name g) (fn_Namespace g) \<or>
        rq = DeleteAutoscale (fn_Name g) (fn_Namespace g)" by blast
      with Inr Some show ?thesis by (auto simp: ens)
    qed
  qed
  have ensured: "\<exists>g. indexer c key = Inr (Some g)"
    if "\<exists>rq r. (rq, r) \<in> set (newEvents w (snd (processItem c key w))) \<and>
              (isEnsureCall rq \<or> rq = ServerResources)"
  proof (cases "indexer c key")
    case (Inl e')
    with that show ?thesis by (simp add: err)
  next
    case (Inr found)
    show ?thesis
    proof (cases found)
      case None
      with Inr that dc(2) show ?thesis
        by (auto simp: del dc(1) dest!: delete_not_ensure)
    next
      case (Some g)
      with Inr show ?thesis by simp
    qed
  qed
  from del ens err probe ensured show ?thesis by blast
qed


theorem processItem_dispatch_witness:
  "processItem exampleController ''default/hello'' [] =
     (Returns (fst (deleteK8sResources exampleController ''default'' ''hello'' [])),
      snd (deleteK8sResources exampleController ''default'' ''hello'' [])) \<and>
   processItem presentController ''default/hello'' [] =
     (fst (ensureK8sResources presentController exampleFunction []),
      snd (snd (ensureK8sResources presentController exampleFunction []))) \<and>
   (CronJobsGet ''default'' ''trigger-hello'', None) \<in>
      set (snd (processItem exampleController ''default/hello'' [])) \<and>
   (CronJobsGet ''default'' ''trigger-hello'', None) \<notin>
      set (snd (processItem presentController ''default/hello'' [])) \<and>
   fst (processItem presentController ''default/hello'' []) = Returns None"
proof -
  have s: "SplitMetaNamespaceKey ''default/hello'' = Inr (''default'', ''hello'')"
    by (simp add: SplitMetaNamespaceKey_def)
  have a: "indexer exampleController ''default/hello'' = Inr None"
    by (simp add: exampleController_def)
  have p: "indexer presentController ''default/hello'' = Inr (Some exampleFunction)"
    by (simp add: presentController_def exampleController_def)
  have e: "ensureK8sResources presentController exampleFunction [] =
     (Returns None, labelledExample,
      [(EnsureFuncConfigMap labelledExample exampleOwner, None),
       (EnsureFuncService labelledExample exampleOwner, None),
       (EnsureFuncDeployment labelledExample exampleOwner, None),
       (DeleteServiceMonitor ''hello'' ''default'', None),
       (DeleteAutoscale ''hello'' ''default'', None)])"
    by (simp add: ensure_defs delete_defs presentController_def exampleController_def
          labelledExample_def exampleFunction_def exampleOwner_def)
  have d: "(CronJobsGet ''default'' ''trigger-hello'', None) \<in>
      set (snd (deleteK8sResources exampleController ''default'' ''hello'' []))"
    by (simp add: delete_defs exampleController_def)
  from processItem_dispatch [OF s, where c = exampleController and w = "[]"] a
  have 1: "processItem exampleController ''default/hello'' [] =
     (Returns (fst (deleteK8sResources exampleController ''default'' ''hello'' [])),
      snd (deleteK8sResources exampleController ''default'' ''hello'' []))"
    by blast
  from processItem_dispatch [OF s, where c = presentController and w = "[]" and f = exampleFunction] p
  have 2: "processItem presentController ''default/hello'' [] =
     (fst (ensureK8sResources presentController exampleFunction []),
      snd (snd (ensureK8sResources presentController exampleFunction [])))"
    by blast
  from 1 2 d show ?thesis
    by (simp add: e)
qed

subsection \<open>The garbage-collection sweep\<close>

lemma collectItems_enqueueOwners: "collectItems items q = enqueueOwners items q"
proof (induction items arbitrary: q)
  case Nil
  then show ?case by (simp add: enqueueOwners_def)
next
  case (Cons m items)
  then show ?case
    by (cases "om_OwnerReferences m")
       (simp_all add: enqueueOwners_def ownedByFunction_def ownerKey_def funcKind_def funcAPI_def)
qed

lemma enqueueOwners_append:
  "enqueueOwners (xs @ ys) q = enqueueOwners ys (enqueueOwners xs q)"
  by (simp add: enqueueOwners_def)

lemma Add_dirty:
  "\<not> shuttingDown q \<Longrightarrow> dirty (Add k q) = insert k (dirty q) \<and> \<not> shuttingDown (Add k q)"
  by (auto simp: Add_def)

lemma foldl_Add_dirty:
  "\<not> shuttingDown q \<Longrightarrow>
     dirty (foldl (\<lambda>q' k. Add k q') q ks) = dirty q \<union> set ks \<and>
     \<not> shuttingDown (foldl (\<lambda>q' k. Add k q') q ks)"
proof (induction ks arbitrary: q)
  case Nil
  then show ?case by simp
next
  case (Cons k ks)
  from Add_dirty [OF Cons.prems, of k] Cons.IH [of "Add k q"] show ?case
    by auto
qed

lemma enqueueOwners_dirty:
  "\<not> shuttingDown q \<Longrightarrow>
     dirty (enqueueOwners items q) =
       dirty q \<union> ownerKey ` {m \<in> set items. ownedByFunction m}"
  using foldl_Add_dirty [of q "map ownerKey (filter ownedByFunction items)"]
  by (auto simp: enqueueOwners_def)

text \<open>
  C7. \<open>garbageCollect\<close> lists the services, the deployments and the config maps, in this
  order, and stops at the first listing that fails. For the objects each successful listing
  returned it calls the queue's \<open>Add\<close> with the key namespace/ownerName of exactly those
  objects whose owner-reference list is not empty and whose first owner reference has kind
  "Function" and api-group "kubeless.io", in listing order; on a queue that is not shutting
  down, the keys marked for processing afterwards are those marked before together with
  these keys. The sweep sends no request other than the three listings, so it deletes
  nothing.
\<close>

theorem garbageCollect_enqueues_owners:
  "(lister c w ServicesList = Inr srvs \<and>
    lister c (w @ [(ServicesList, None)]) DeploymentsList = Inr ds \<and>
    lister c (w @ [(ServicesList, None), (DeploymentsList, None)]) ConfigMapsList = Inr cms \<longrightarrow>
      garbageCollect c (q, w) =
        (None, enqueueOwners (srvs @ ds @ cms) q,
         w @ [(ServicesList, None), (DeploymentsList, None), (ConfigMapsList, None)]) \<and>
      (\<not> shuttingDown q \<longrightarrow>
         dirty (fst (snd (garbageCollect c (q, w)))) =
           dirty q \<union> ownerKey ` {m \<in> set (srvs @ ds @ cms). ownedByFunction m})) \<and>
   (lister c w ServicesList = Inl e \<longrightarrow>
      garbageCollect c (q, w) = (Some e, q, w @ [(ServicesList, Some e)])) \<and>
   (lister c w ServicesList = Inr srvs \<and>
    lister c (w @ [(ServicesList, None)]) DeploymentsList = Inl e \<longrightarrow>
      garbageCollect c (q, w) =
        (Some e, enqueueOwners srvs q, w @ [(ServicesList, None), (DeploymentsList, Some e)])) \<and>
   (lister c w ServicesList = Inr srvs \<and>
    lister c (w @ [(ServicesList, None)]) DeploymentsList = Inr ds \<and>
    lister c (w @ [(ServicesList, None), (DeploymentsList, None)]) ConfigMapsList = Inl e \<longrightarrow>
      garbageCollect c (q, w) =
        (Some e, enqueueOwners (srvs @ ds) q,
         w @ [(ServicesList, None), (DeploymentsList, None), (ConfigMapsList, Some e)])) \<and>
   (\<forall>rq r. (rq, r) \<in> set (newEvents w (snd (snd (garbageCollect c (q, w))))) \<longrightarrow>
      rq \<in> {ServicesList, DeploymentsList, ConfigMapsList})"
proof -
  have ok: "garbageCollect c (q, w) =
        (None, enqueueOwners (srvs @ ds @ cms) q,
         w @ [(ServicesList, None), (DeploymentsList, None), (ConfigMapsList, None)])"
    if "lister c w ServicesList = Inr srvs \<and>
    lister c (w @ [(ServicesList, None)]) DeploymentsList = Inr ds \<and>
    lister c (w @ [(ServicesList, None), (DeploymentsList, None)]) ConfigMapsList = Inr cms"
    using that
    by (simp add: garbageCollect_def collectServices_def collectDeployment_def
        collectConfigMap_def collectItems_enqueueOwners enqueueOwners_append)
  have rest: "(lister c w ServicesList = Inl e \<longrightarrow>
      garbageCollect c (q, w) = (Some e, q, w @ [(ServicesList, Some e)])) \<and>
   (lister c w ServicesList = Inr srvs \<and>
    lister c (w @ [(ServicesList, None)]) DeploymentsList = Inl e \<longrightarrow>
      garbageCollect c (q, w) =
        (Some e, enqueueOwners srvs q, w @ [(ServicesList, None), (DeploymentsList, Some e)])) \<and>
   (lister c w ServicesList = Inr srvs \<and>
    lister c (w @ [(ServicesList, None)]) DeploymentsList = Inr ds \<and>
    lister c (w @ [(ServicesList, None), (DeploymentsList, None)]) ConfigMapsList = Inl e \<longrightarrow>
      garbageCollect c (q, w) =
        (Some e, enqueueOwners (srvs @ ds) q,
         w @ [(ServicesList, None), (DeploymentsList, None), (ConfigMapsList, Some e)])) \<and>
   (\<forall>rq r. (rq, r) \<in> set (newEvents w (snd (snd (garbageCollect c (q, w))))) \<longrightarrow>
      rq \<in> {ServicesList, DeploymentsList, ConfigMapsList})"
    by (auto simp: garbageCollect_def collectServices_def collectDeployment_def
        collectConfigMap_def collectItems_enqueueOwners enqueueOwners_append
        split: sum.splits)
  from ok enqueueOwners_dirty [of q "srvs @ ds @ cms"] rest show ?thesis
    by simp
qed

theorem garbageCollect_enqueues_owners_witness:
  "garbageCollect listingController (NewRateLimitingQueue, []) =
     (None, Add ''default/orphan'' NewRateLimitingQueue,
      [(ServicesList, None), (DeploymentsList, None), (ConfigMapsList, None)]) \<and>
   dirty (fst (snd (garbageCollect listingController (NewRateLimitingQueue, [])))) =
     {''default/orphan''}"
proof -
  have l: "lister listingController [] ServicesList = Inr [foreignService, exampleService] \<and>
    lister listingController ([] @ [(ServicesList, None)]) DeploymentsList = Inr [] \<and>
    lister listingController ([] @ [(ServicesList, None), (DeploymentsList, None)]) ConfigMapsList =
      Inr [unownedConfigMap]"
    by (simp add: listingController_def exampleController_def)
  have n: "\<not> shuttingDown NewRateLimitingQueue"
    by (simp add: NewRateLimitingQueue_def)
  have k: "enqueueOwners ([foreignService, exampleService] @ [] @ [unownedConfigMap])
      NewRateLimitingQueue = Add ''default/orphan'' NewRateLimitingQueue"
    by (simp add: enqueueOwners_def ownedByFunction_def ownerKey_def foreignService_def
          exampleService_def unownedConfigMap_def)
  from garbageCollect_enqueues_owners [of listingController "[]" "[foreignService, exampleService]"
      "[]" "[unownedConfigMap]" NewRateLimitingQueue] l n
  have "garbageCollect listingController (NewRateLimitingQueue, []) =
        (None, enqueueOwners ([foreignService, exampleService] @ [] @ [unownedConfigMap])
           NewRateLimitingQueue,
         [] @ [(ServicesList, None), (DeploymentsList, None), (ConfigMapsList, None)])"
    by blast
  with k have gc: "garbageCollect listingController (NewRateLimitingQueue, []) =
     (None, Add ''default/orphan'' NewRateLimitingQueue,
      [(ServicesList, None), (DeploymentsList, None), (ConfigMapsList, None)])"
    by simp
  have "dirty (Add ''default/orphan'' NewRateLimitingQueue) = {''default/orphan''}"
    by (simp add: Add_def NewRateLimitingQueue_def)
  with gc show ?thesis
    by simp
qed

subsection \<open>The group version of a resource\<close>

lemma scanAPIResources_eq:
  "scanAPIResources rs target gv cur = (if target \<in> ar_Name ` set rs then gv else cur)"
  by (induction rs) auto

lemma scanResources_eq:
  "scanResources resources target cur =
     (if listsNaming target resources = [] then cur
      else arl_GroupVersion (last (listsNaming target resources)))"
  by (induction resources arbitrary: cur) (auto simp: listsNaming_def scanAPIResources_eq)

text \<open>
  C9 (as amended). \<open>getResouceGroupVersion\<close> returns the discovery error when discovery
  fails. Otherwise it returns an error exactly when no discovered list contains a resource
  named \<open>target\<close> or the last list that contains one has an empty group-version string, and
  this error is "not found in any group"; in every other case it returns the group version
  of the last list, in discovery order, that contains such a resource.
\<close>

theorem getResouceGroupVersion_last_match:
  "(discovery c w = Inl e \<longrightarrow>
      getResouceGroupVersion c target w = (Inl e, w @ [(ServerResources, Some e)])) \<and>
   (discovery c w = Inr resources \<longrightarrow>
      snd (getResouceGroupVersion c target w) = w @ [(ServerResources, None)] \<and>
      (isl (fst (getResouceGroupVersion c target w)) \<longleftrightarrow>
         listsNaming target resources = [] \<or>
         arl_GroupVersion (last (listsNaming target resources)) = []) \<and>
      (isl (fst (getResouceGroupVersion c target w)) \<longrightarrow>
         fst (getResouceGroupVersion c target w) = Inl (ResourceNotInAnyGroup target)) \<and>
      (\<not> isl (fst (getResouceGroupVersion c target w)) \<longrightarrow>
         fst (getResouceGroupVersion c target w) =
           Inr (arl_GroupVersion (last (listsNaming target resources)))))"
  by (auto simp: getResouceGroupVersion_def scanResources_eq Let_def)

theorem getResouceGroupVersion_last_match_witness:
  "fst (getResouceGroupVersion twoVersionsController ''cronjobs'' []) = Inr ''batch/v2alpha1'' \<and>
   listsNaming ''cronjobs'' [batchV1beta1, batchV2alpha1, coreV1] = [batchV1beta1, batchV2alpha1] \<and>
   fst (getResouceGroupVersion twoVersionsController ''ingresses'' []) =
     Inl (ResourceNotInAnyGroup ''ingresses'')"
proof -
  have d: "discovery twoVersionsController [] = Inr [batchV1beta1, batchV2alpha1, coreV1]"
    by (simp add: twoVersionsController_def exampleController_def)
  have l: "listsNaming ''cronjobs'' [batchV1beta1, batchV2alpha1, coreV1] =
      [batchV1beta1, batchV2alpha1]"
    "listsNaming ''ingresses'' [batchV1beta1, batchV2alpha1, coreV1] = []"
    by (simp_all add: listsNaming_def batchV1beta1_def batchV2alpha1_def coreV1_def)
  have g: "arl_GroupVersion batchV2alpha1 = ''batch/v2alpha1''"
    by (simp add: batchV2alpha1_def)
  from getResouceGroupVersion_last_match [of twoVersionsController "[]" _ "''cronjobs''"
      "[batchV1beta1, batchV2alpha1, coreV1]"]
    getResouceGroupVersion_last_match [of twoVersionsController "[]" _ "''ingresses''"
      "[batchV1beta1, batchV2alpha1, coreV1]"] d l g
  show ?thesis
    by simp
qed

text \<open>
  C9 as stated fails: a discovered list with an empty group-version string contains
  \<open>cronjobs\<close>, and the lookup still returns the "not found in any group" error.
\<close>

theorem unnamed_group_is_not_found:
  "discovery unnamedGroupController [] = Inr [coreV1, unnamedGroup] \<and>
   ''cronjobs'' \<in> ar_Name ` set (arl_APIResources unnamedGroup) \<and>
   fst (getResouceGroupVersion unnamedGroupController ''cronjobs'' []) =
     Inl (ResourceNotInAnyGroup ''cronjobs'')"
  by (simp add: getResouceGroupVersion_def unnamedGroupController_def exampleController_def
        coreV1_def unnamedGroup_def)

end
